theory Spec2Isabelle
  imports Main "HOL-Library.Sublist"
begin

section \<open>Strings and character classes\<close>

text \<open>
  Source strings are modelled as \<^typ>\<open>string\<close>. The regular expressions of the source carry
  no \<^verbatim>\<open>i\<close> and no \<^verbatim>\<open>u\<close> flag, so \<^verbatim>\<open>[A-Z]\<close>, \<^verbatim>\<open>\d\<close> and \<^verbatim>\<open>\w\<close> are the ASCII classes,
  and every other code unit is a non-word character.
\<close>

definition isUpperAZ :: "char \<Rightarrow> bool" where
  "isUpperAZ c \<longleftrightarrow> 65 \<le> (of_char c :: nat) \<and> (of_char c :: nat) \<le> 90"

definition isLowerAZ :: "char \<Rightarrow> bool" where
  "isLowerAZ c \<longleftrightarrow> 97 \<le> (of_char c :: nat) \<and> (of_char c :: nat) \<le> 122"

definition isDigit :: "char \<Rightarrow> bool" where
  "isDigit c \<longleftrightarrow> 48 \<le> (of_char c :: nat) \<and> (of_char c :: nat) \<le> 57"

definition isWordChar :: "char \<Rightarrow> bool" where
  "isWordChar c \<longleftrightarrow> isUpperAZ c \<or> isLowerAZ c \<or> isDigit c \<or> c = CHR ''_''"

text \<open>\<^verbatim>\<open>Array.prototype.includes\<close>, which on strings compares by equality.\<close>

fun arrayIncludes :: "'a list \<Rightarrow> 'a \<Rightarrow> bool" where
  "arrayIncludes [] x = False"
| "arrayIncludes (y # ys) x = (y = x \<or> arrayIncludes ys x)"

lemma arrayIncludes_iff: "arrayIncludes xs x \<longleftrightarrow> x \<in> set xs"
  by (induction xs) auto

text \<open>
  A string-valued setting that may be missing is a \<^typ>\<open>string option\<close>. The source tests
  such values with \<^verbatim>\<open>if (x)\<close> and \<^verbatim>\<open>!x\<close>, which treat \<^verbatim>\<open>undefined\<close>, \<^verbatim>\<open>null\<close> and the
  empty string alike.
\<close>

fun truthy :: "string option \<Rightarrow> bool" where
  "truthy None = False"
| "truthy (Some s) = (s \<noteq> [])"

section \<open>Regular expressions of the source\<close>

text \<open>
  The two patterns of the parser are sequences of assertions, single characters and greedy
  repetitions of a character class. \<open>rmatch\<close> is the backtracking matcher at one start
  position: it is given the character before the position (\<open>None\<close> at the start of the
  input) and the rest of the input, and returns the number of characters matched.
\<close>

datatype cclass = UpperAZ | DigitD | Literal char

fun inClass :: "cclass \<Rightarrow> char \<Rightarrow> bool" where
  "inClass UpperAZ c = isUpperAZ c"
| "inClass DigitD c = isDigit c"
| "inClass (Literal l) c = (c = l)"

datatype atom =
    AssertStart
  | AssertEnd
  | AssertWordB
  | One cclass
  | Greedy cclass nat "nat option"

fun isWordAt :: "char option \<Rightarrow> bool" where
  "isWordAt None = False"
| "isWordAt (Some c) = isWordChar c"

fun nextChar :: "string \<Rightarrow> char option" where
  "nextChar [] = None"
| "nextChar (c # cs) = Some c"

fun decMax :: "nat option \<Rightarrow> nat option" where
  "decMax None = None"
| "decMax (Some h) = Some (h - 1)"

fun rmatch :: "atom list \<Rightarrow> char option \<Rightarrow> string \<Rightarrow> nat option" where
  "rmatch [] prev s = Some 0"
| "rmatch (AssertStart # as) prev s = (if prev = None then rmatch as prev s else None)"
| "rmatch (AssertEnd # as) prev s = (if s = [] then rmatch as prev s else None)"
| "rmatch (AssertWordB # as) prev s =
     (if isWordAt prev \<noteq> isWordAt (nextChar s) then rmatch as prev s else None)"
| "rmatch (One k # as) prev [] = None"
| "rmatch (One k # as) prev (c # cs) =
     (if inClass k c then map_option Suc (rmatch as (Some c) cs) else None)"
| "rmatch (Greedy k lo hi # as) prev [] = (if lo = 0 then rmatch as prev [] else None)"
| "rmatch (Greedy k lo hi # as) prev (c # cs) =
     (if inClass k c \<and> hi \<noteq> Some 0
      then (case rmatch (Greedy k (lo - 1) (decMax hi) # as) (Some c) cs of
              Some n \<Rightarrow> Some (Suc n)
            | None \<Rightarrow> if lo = 0 then rmatch as prev (c # cs) else None)
      else if lo = 0 then rmatch as prev (c # cs) else None)"

lemma rmatch_le: "rmatch as prev s = Some n \<Longrightarrow> n \<le> length s"
  by (induction as prev s arbitrary: n rule: rmatch.induct)
     (auto split: if_splits option.splits)

text \<open>
  \<^verbatim>\<open>String.prototype.match\<close> with a global pattern: the scan starts at index 0, each search
  takes the leftmost start position at which the pattern matches, the next search starts
  where the match ended (one character further after an empty match), and the matched
  substrings are collected; the result is \<^verbatim>\<open>null\<close> when there is none. \<open>regexTest\<close> is
  \<^verbatim>\<open>RegExp.prototype.test\<close> of a pattern without the global flag: some start position matches.
\<close>

function matchGlobal :: "atom list \<Rightarrow> char option \<Rightarrow> string \<Rightarrow> string list" where
  "matchGlobal re prev s =
     (case rmatch re prev s of
        Some n \<Rightarrow>
          if n = 0
          then (case s of [] \<Rightarrow> [[]] | c # cs \<Rightarrow> [] # matchGlobal re (Some c) cs)
          else take n s # matchGlobal re (Some (s ! (n - 1))) (drop n s)
      | None \<Rightarrow> (case s of [] \<Rightarrow> [] | c # cs \<Rightarrow> matchGlobal re (Some c) cs))"
  by pat_completeness auto
termination
proof (relation "measure (\<lambda>(re, prev, s). length s)")
  fix re :: "atom list" and prev :: "char option" and s :: string and n :: nat
  assume "rmatch re prev s = Some n" and "n \<noteq> 0"
  then have "n \<le> length s" and "0 < n"
    using rmatch_le by auto
  then show "((re, Some (s ! (n - 1)), drop n s), (re, prev, s))
      \<in> measure (\<lambda>(re, prev, s). length s)"
    by simp
qed auto

declare matchGlobal.simps [simp del]

fun stringMatch :: "string \<Rightarrow> atom list \<Rightarrow> string list option" where
  "stringMatch s re = (case matchGlobal re None s of [] \<Rightarrow> None | m # ms \<Rightarrow> Some (m # ms))"

fun searchFrom :: "atom list \<Rightarrow> char option \<Rightarrow> string \<Rightarrow> bool" where
  "searchFrom re prev [] = (rmatch re prev [] \<noteq> None)"
| "searchFrom re prev (c # cs) = (rmatch re prev (c # cs) \<noteq> None \<or> searchFrom re (Some c) cs)"

definition regexTest :: "atom list \<Rightarrow> string \<Rightarrow> bool" where
  "regexTest re s = searchFrom re None s"

definition ISSUE_ID_PATTERN :: "atom list" where
  "ISSUE_ID_PATTERN =
     [AssertWordB, Greedy UpperAZ 2 (Some 10), One (Literal (CHR ''-'')),
      Greedy DigitD 1 None, AssertWordB]"

definition newSet :: "'a list \<Rightarrow> 'a list" where
  "newSet xs = foldl (\<lambda>acc x. if x \<in> set acc then acc else acc @ [x]) [] xs"

definition extractTicketIds :: "string \<Rightarrow> string list" where
  "extractTicketIds message =
     (case stringMatch message ISSUE_ID_PATTERN of
        None \<Rightarrow> []
      | Some matches \<Rightarrow> newSet matches)"

section \<open>The commit parser\<close>

definition VALID_TICKET_ID_PATTERN :: "atom list" where
  "VALID_TICKET_ID_PATTERN =
     [AssertStart, Greedy UpperAZ 2 (Some 10), One (Literal (CHR ''-'')),
      Greedy DigitD 1 None, AssertEnd]"

definition isValidTicketId :: "string \<Rightarrow> bool" where
  "isValidTicketId ticketId = regexTest VALID_TICKET_ID_PATTERN ticketId"

fun splitOn :: "char \<Rightarrow> string \<Rightarrow> string list" where
  "splitOn sep [] = [[]]"
| "splitOn sep (c # cs) =
     (if c = sep then [] # splitOn sep cs
      else (case splitOn sep cs of
              [] \<Rightarrow> [[c]]
            | piece # pieces \<Rightarrow> (c # piece) # pieces))"

definition startsWith :: "string \<Rightarrow> string \<Rightarrow> bool" where
  "startsWith s p \<longleftrightarrow> take (length p) s = p"

datatype TrackerGuess = GuessJira | GuessLinear | GuessUnknown

definition detectIssueTracker :: "string \<Rightarrow> TrackerGuess" where
  "detectIssueTracker issueId' =
     (if \<not> isValidTicketId issueId' then GuessUnknown
      else let pre = hd (splitOn (CHR ''-'') issueId')
           in if length pre \<le> 4 then GuessUnknown else GuessJira)"

record CommitAuthor =
  authorName :: string
  authorEmail :: string

record Commit =
  commitId :: string
  commitMessage :: string
  commitAuthor :: CommitAuthor

record ParsedCommit =
  sha :: string
  message :: string
  author :: string
  ticketIds :: "string list"

fun parseCommitsLoop :: "Commit list \<Rightarrow> string option \<Rightarrow> ParsedCommit list \<Rightarrow> ParsedCommit list" where
  "parseCommitsLoop [] projectKey parsedCommits = parsedCommits"
| "parseCommitsLoop (commit # rest) projectKey parsedCommits =
     (let found = extractTicketIds (commitMessage commit);
          filteredTickets =
            (if truthy projectKey
             then filter (\<lambda>i. startsWith i (the projectKey @ ''-'')) found
             else found)
      in if length filteredTickets > 0
         then parseCommitsLoop rest projectKey
                (parsedCommits @
                  [\<lparr>sha = commitId commit,
                    message = hd (splitOn (CHR 0x0A) (commitMessage commit)),
                    author = authorName (commitAuthor commit),
                    ticketIds = filteredTickets\<rparr>])
         else parseCommitsLoop rest projectKey parsedCommits)"

definition parseCommits :: "Commit list \<Rightarrow> string option \<Rightarrow> ParsedCommit list" where
  "parseCommits commits projectKey = parseCommitsLoop commits projectKey []"

definition getAllTicketIds :: "ParsedCommit list \<Rightarrow> string list" where
  "getAllTicketIds parsedCommits = newSet (concat (map ticketIds parsedCommits))"

section \<open>Configuration and the tracker factory\<close>

text \<open>
  \<open>Config\<close> is the object inferred from \<^verbatim>\<open>ConfigSchema\<close>. The selector is kept as the
  string that the \<^verbatim>\<open>switch\<close> of the factory inspects. \<open>pmMapping\<close> is the list of the
  own entries of the parsed JSON object.
\<close>

record Config =
  issueTracker :: string
  jiraBaseUrl :: "string option"
  jiraEmail :: "string option"
  jiraApiToken :: "string option"
  jiraProjectKey :: "string option"
  linearApiKey :: "string option"
  linearTeamKey :: "string option"
  slackBotToken :: string
  slackChannelOrUser :: string
  environment :: string
  pmMapping :: "(string \<times> string) list option"
  onlyActiveSprint :: bool
  ticketStatusFilter :: "string list option"

datatype error =
    ConfigurationError string
  | JiraApiError string "nat option" "string option"
  | LinearApiError string "nat option" "string option"

text \<open>
  The two adapters, as the values their constructors store: the Jira client is configured
  with the base URL (one trailing slash removed) and the basic-auth pair, the Linear client
  with the key sent as the \<^verbatim>\<open>Authorization\<close> header and the optional team key.
\<close>

record JiraService =
  baseUrl :: string
  authUsername :: string
  authPassword :: string

record LinearService =
  authorization :: string
  teamKey :: "string option"

datatype IssueTrackerService = Jira JiraService | Linear LinearService

definition removeTrailingSlash :: "string \<Rightarrow> string" where
  "removeTrailingSlash s = (if s \<noteq> [] \<and> last s = CHR ''/'' then butlast s else s)"

definition newJiraService :: "string \<Rightarrow> string \<Rightarrow> string \<Rightarrow> JiraService" where
  "newJiraService url email apiToken =
     \<lparr>baseUrl = removeTrailingSlash url, authUsername = email, authPassword = apiToken\<rparr>"

definition newLinearService :: "string \<Rightarrow> string option \<Rightarrow> LinearService" where
  "newLinearService apiKey tk = \<lparr>authorization = apiKey, teamKey = tk\<rparr>"

definition createJiraService :: "Config \<Rightarrow> error + JiraService" where
  \<open>createJiraService config =
     (if \<not> truthy (jiraBaseUrl config)
      then Inl (ConfigurationError ''jira_base_url is required when issue_tracker is "jira"'')
      else if \<not> truthy (jiraEmail config)
      then Inl (ConfigurationError ''jira_email is required when issue_tracker is "jira"'')
      else if \<not> truthy (jiraApiToken config)
      then Inl (ConfigurationError ''jira_api_token is required when issue_tracker is "jira"'')
      else Inr (newJiraService (the (jiraBaseUrl config)) (the (jiraEmail config))
                  (the (jiraApiToken config))))\<close>

definition createLinearService :: "Config \<Rightarrow> error + LinearService" where
  \<open>createLinearService config =
     (if \<not> truthy (linearApiKey config)
      then Inl (ConfigurationError ''linear_api_key is required when issue_tracker is "linear"'')
      else Inr (newLinearService (the (linearApiKey config)) (linearTeamKey config)))\<close>

definition createIssueTracker :: "Config \<Rightarrow> error + IssueTrackerService" where
  "createIssueTracker config =
     (if issueTracker config = ''jira'' then map_sum id Jira (createJiraService config)
      else if issueTracker config = ''linear'' then map_sum id Linear (createLinearService config)
      else Inl (ConfigurationError (''Unknown issue tracker: '' @ issueTracker config)))"

definition getProjectKey :: "Config \<Rightarrow> string option" where
  "getProjectKey config =
     (if issueTracker config = ''jira'' then jiraProjectKey config
      else if issueTracker config = ''linear'' then linearTeamKey config
      else None)"

section \<open>The shared issue model and the backend representations\<close>

datatype SprintState = Active | Future | Closed

datatype CycleState = Started | Unstarted | Completed

record Person =
  name :: string
  email :: string

record IssueSprint =
  sprintName :: string
  sprintState :: SprintState

record IssueCycle =
  cycleName :: string
  cycleState :: CycleState

record Issue =
  issueId :: string
  key :: string
  summary :: string
  status :: string
  assignee :: "Person option"
  sprint :: "IssueSprint option"
  cycle :: "IssueCycle option"
  pmEmail :: "string option"
  url :: string

record JiraUser =
  accountId :: string
  emailAddress :: string
  displayName :: string

record JiraStatus =
  statusName :: string
  statusCategoryName :: string

record JiraSprint =
  jiraSprintId :: int
  jiraSprintName :: string
  jiraSprintState :: SprintState
  startDate :: "string option"
  endDate :: "string option"
  goal :: "string option"

record JiraFields =
  fieldSummary :: string
  fieldStatus :: JiraStatus
  fieldAssignee :: "JiraUser option"
  fieldReporter :: "JiraUser option"
  fieldSprint :: "JiraSprint option"
  customfield_pm :: "JiraUser option"

record JiraIssue =
  jiraId :: string
  jiraKey :: string
  issueFields :: JiraFields
  self :: string

record LinearState =
  stateName :: string
  stateType :: string

record LinearCycle =
  linearCycleName :: string
  startsAt :: string
  endsAt :: string
  completedAt :: "string option"

record LinearTeam =
  teamKeyOf :: string
  teamName :: string

record LinearIssue =
  linearId :: string
  issueIdentifier :: string
  title :: string
  linearState :: LinearState
  linearAssignee :: "Person option"
  linearCycle :: "LinearCycle option"
  team :: LinearTeam
  linearUrl :: string

section \<open>The Jira adapter: conversion and the pure methods\<close>

definition JiraService_getIssueUrl :: "JiraService \<Rightarrow> string \<Rightarrow> string" where
  "JiraService_getIssueUrl this ticketId = baseUrl this @ ''/browse/'' @ ticketId"

definition getJiraPmEmail :: "JiraIssue \<Rightarrow> string option" where
  "getJiraPmEmail jiraIssue =
     (if truthy (map_option emailAddress (customfield_pm (issueFields jiraIssue)))
      then map_option emailAddress (customfield_pm (issueFields jiraIssue))
      else if truthy (map_option emailAddress (fieldReporter (issueFields jiraIssue)))
      then map_option emailAddress (fieldReporter (issueFields jiraIssue))
      else None)"

definition JiraService_convertToGenericIssue :: "JiraService \<Rightarrow> JiraIssue \<Rightarrow> Issue" where
  "JiraService_convertToGenericIssue this jiraIssue =
     \<lparr>issueId = jiraId jiraIssue,
      key = jiraKey jiraIssue,
      summary = fieldSummary (issueFields jiraIssue),
      status = statusName (fieldStatus (issueFields jiraIssue)),
      assignee =
        (case fieldAssignee (issueFields jiraIssue) of
           Some a \<Rightarrow> Some \<lparr>name = displayName a, email = emailAddress a\<rparr>
         | None \<Rightarrow> None),
      sprint =
        (case fieldSprint (issueFields jiraIssue) of
           Some sp \<Rightarrow> Some \<lparr>sprintName = jiraSprintName sp, sprintState = jiraSprintState sp\<rparr>
         | None \<Rightarrow> None),
      cycle = None,
      pmEmail = getJiraPmEmail jiraIssue,
      url = JiraService_getIssueUrl this (jiraKey jiraIssue)\<rparr>"

definition JiraService_isInActiveSprint :: "Issue \<Rightarrow> bool" where
  "JiraService_isInActiveSprint issue =
     (case sprint issue of
        None \<Rightarrow> False
      | Some sp \<Rightarrow> sprintState sp = Active)"

definition JiraService_filterByStatus :: "Issue list \<Rightarrow> string list option \<Rightarrow> Issue list" where
  "JiraService_filterByStatus issues allowedStatuses =
     (case allowedStatuses of
        None \<Rightarrow> issues
      | Some allowed \<Rightarrow>
          if length allowed = 0 then issues
          else filter (\<lambda>issue. arrayIncludes allowed (status issue)) issues)"

definition JiraService_getPmEmail :: "Issue \<Rightarrow> string option" where
  "JiraService_getPmEmail issue = pmEmail issue"

section \<open>The Linear adapter: conversion and the pure methods\<close>

text \<open>
  \<open>getCycleState\<close> reads the clock and parses two timestamps. Both are parameters of the
  model: \<open>now\<close> is the time value of \<^verbatim>\<open>new Date()\<close>, and \<open>dateOf str\<close> is the time value of
  \<^verbatim>\<open>new Date(str)\<close>, \<open>None\<close> for an invalid date. A comparison with an invalid date is
  false, as the comparison with \<^verbatim>\<open>NaN\<close> is.
\<close>

fun dateLess :: "int option \<Rightarrow> int option \<Rightarrow> bool" where
  "dateLess (Some a) (Some b) = (a < b)"
| "dateLess _ _ = False"

fun dateLessEq :: "int option \<Rightarrow> int option \<Rightarrow> bool" where
  "dateLessEq (Some a) (Some b) = (a \<le> b)"
| "dateLessEq _ _ = False"

definition getCycleState ::
  "(string \<Rightarrow> int option) \<Rightarrow> int \<Rightarrow> LinearCycle option \<Rightarrow> CycleState" where
  "getCycleState dateOf now cyc =
     (case cyc of
        None \<Rightarrow> Unstarted
      | Some c \<Rightarrow>
          if truthy (completedAt c) then Completed
          else if dateLess (Some now) (dateOf (startsAt c)) then Unstarted
          else if dateLessEq (dateOf (startsAt c)) (Some now)
                  \<and> dateLessEq (Some now) (dateOf (endsAt c)) then Started
          else Completed)"

definition LinearService_convertToGenericIssue ::
  "(string \<Rightarrow> int option) \<Rightarrow> int \<Rightarrow> LinearIssue \<Rightarrow> Issue" where
  "LinearService_convertToGenericIssue dateOf now linearIssue =
     \<lparr>issueId = linearId linearIssue,
      key = issueIdentifier linearIssue,
      summary = title linearIssue,
      status = stateName (linearState linearIssue),
      assignee =
        (case linearAssignee linearIssue of
           Some a \<Rightarrow> Some \<lparr>name = name a, email = email a\<rparr>
         | None \<Rightarrow> None),
      sprint = None,
      cycle =
        (case linearCycle linearIssue of
           Some c \<Rightarrow> Some \<lparr>cycleName = linearCycleName c,
                            cycleState = getCycleState dateOf now (linearCycle linearIssue)\<rparr>
         | None \<Rightarrow> None),
      pmEmail = None,
      url = linearUrl linearIssue\<rparr>"

definition LinearService_isInActiveSprint :: "Issue \<Rightarrow> bool" where
  "LinearService_isInActiveSprint issue =
     (case cycle issue of
        None \<Rightarrow> False
      | Some c \<Rightarrow> cycleState c = Started)"

definition LinearService_filterByStatus :: "Issue list \<Rightarrow> string list option \<Rightarrow> Issue list" where
  "LinearService_filterByStatus issues allowedStatuses =
     (case allowedStatuses of
        None \<Rightarrow> issues
      | Some allowed \<Rightarrow>
          if length allowed = 0 then issues
          else filter (\<lambda>issue. arrayIncludes allowed (status issue)) issues)"

definition LinearService_getPmEmail :: "Issue \<Rightarrow> string option" where
  "LinearService_getPmEmail issue = pmEmail issue"

definition LinearService_getIssueUrl :: "string \<Rightarrow> string" where
  "LinearService_getIssueUrl issueId' = ''https://linear.app/issue/'' @ issueId'"

section \<open>Fetching issues: network outcomes, exceptions and the log\<close>

text \<open>
  The fetching methods call the network, throw and catch, and write to the logger. A
  computation of this kind is modelled by the list of logger calls it made, in order, and
  its outcome: \<open>Inl\<close> for a thrown error, \<open>Inr\<close> for a returned value. The network is a
  parameter that gives, for each request, what the HTTP client observed: a response or a
  transport failure. For the other methods only the returned value is modelled.
\<close>

datatype logEvent =
    LogInfo string
  | LogDebug string
  | LogWarning string
  | LogError string "string option"
  | LogGroup string
  | LogEndGroup

type_synonym 'a io = "logEvent list \<times> (error + 'a)"

definition ret :: "'a \<Rightarrow> 'a io" where
  "ret x = ([], Inr x)"

definition throw :: "error \<Rightarrow> 'a io" where
  "throw e = ([], Inl e)"

definition logger :: "logEvent \<Rightarrow> unit io" where
  "logger ev = ([ev], Inr ())"

definition andThen :: "'a io \<Rightarrow> ('a \<Rightarrow> 'b io) \<Rightarrow> 'b io" where
  "andThen m f =
     (case m of
        (l, Inl e) \<Rightarrow> (l, Inl e)
      | (l, Inr x) \<Rightarrow> (case f x of (l', r) \<Rightarrow> (l @ l', r)))"

definition tryCatch :: "'a io \<Rightarrow> (error \<Rightarrow> 'a io) \<Rightarrow> 'a io" where
  "tryCatch m h =
     (case m of
        (l, Inl e) \<Rightarrow> (case h e of (l', r) \<Rightarrow> (l @ l', r))
      | (l, Inr x) \<Rightarrow> (l, Inr x))"

fun errorMessage :: "error \<Rightarrow> string" where
  "errorMessage (ConfigurationError m) = m"
| "errorMessage (JiraApiError m st body) = m"
| "errorMessage (LinearApiError m st body) = m"

record AxiosError =
  axiosMessage :: string
  responseStatus :: "nat option"
  responseData :: "string option"

fun showNat :: "nat \<Rightarrow> string" where
  "showNat n =
     (if n < 10 then [''0123456789'' ! n]
      else showNat (n div 10) @ [''0123456789'' ! (n mod 10)])"

declare showNat.simps [simp del]

fun joinWith :: "string \<Rightarrow> string list \<Rightarrow> string" where
  "joinWith sep [] = []"
| "joinWith sep [x] = x"
| "joinWith sep (x # y # ys) = x @ sep @ joinWith sep (y # ys)"

subsection \<open>Jira: one batched search\<close>

record JiraSearchRequest =
  jql :: string
  requestedFields :: "string list"
  maxResults :: nat

record JiraSearchResponse =
  resultIssues :: "JiraIssue list"
  total :: nat
  responseMaxResults :: nat
  startAt :: nat

type_synonym jiraNetwork = "JiraSearchRequest \<Rightarrow> AxiosError + JiraSearchResponse"

definition jiraClientPost :: "jiraNetwork \<Rightarrow> string \<Rightarrow> JiraSearchRequest \<Rightarrow> JiraSearchResponse io" where
  "jiraClientPost network path body =
     andThen (logger (LogDebug (''Making request to '' @ path))) (\<lambda>_.
       case network body of
         Inr response \<Rightarrow> ret response
       | Inl err \<Rightarrow>
           andThen (logger (LogError (''Jira API error: '' @ axiosMessage err)
                              (Some (axiosMessage err)))) (\<lambda>_.
             throw (JiraApiError (''Jira API error: '' @ axiosMessage err)
                      (responseStatus err) (responseData err))))"

definition jiraSearchRequest :: "string list \<Rightarrow> JiraSearchRequest" where
  "jiraSearchRequest ids =
     \<lparr>jql = ''key in ('' @ joinWith '','' ids @ '')'',
      requestedFields =
        [''summary'', ''status'', ''assignee'', ''reporter'', ''sprint'', ''customfield_pm''],
      maxResults = 100\<rparr>"

definition JiraService_getJiraIssues :: "jiraNetwork \<Rightarrow> string list \<Rightarrow> JiraIssue list io" where
  "JiraService_getJiraIssues network ids =
     (if length ids = 0 then ret []
      else andThen (jiraClientPost network ''/rest/api/3/search'' (jiraSearchRequest ids))
             (\<lambda>response. ret (resultIssues response)))"

definition JiraService_getIssues :: "JiraService \<Rightarrow> jiraNetwork \<Rightarrow> string list \<Rightarrow> Issue list io" where
  "JiraService_getIssues this network ids =
     (if length ids = 0 then ret []
      else tryCatch
        (andThen (logger (LogGroup (''Fetching '' @ showNat (length ids)
                                     @ '' issues from Jira''))) (\<lambda>_.
         andThen (JiraService_getJiraIssues network ids) (\<lambda>jiraIssues.
         let found = map (JiraService_convertToGenericIssue this) jiraIssues in
         andThen (logger (LogInfo (''Found '' @ showNat (length found) @ '' issues''))) (\<lambda>_.
         andThen (logger LogEndGroup) (\<lambda>_.
         ret found)))))
        (\<lambda>err.
         andThen (logger (LogError ''Failed to get issues'' (Some (errorMessage err)))) (\<lambda>_.
         andThen (logger LogEndGroup) (\<lambda>_.
         ret []))))"

subsection \<open>Linear: one query per identifier\<close>

text \<open>
  \<open>responseErrors\<close> is the \<^verbatim>\<open>errors\<close> array of a GraphQL response as \<^verbatim>\<open>JSON.stringify\<close> renders
  it, \<open>None\<close> when the response has none; \<open>responseIssue\<close> is \<^verbatim>\<open>data.issue\<close>. The clock is
  read once per converted issue, so it is given per identifier.
\<close>

record LinearGraphQLResponse =
  responseIssue :: "LinearIssue option"
  responseErrors :: "string option"

type_synonym linearNetwork = "string \<Rightarrow> AxiosError + LinearGraphQLResponse"

definition linearClientPost :: "linearNetwork \<Rightarrow> string \<Rightarrow> LinearGraphQLResponse io" where
  "linearClientPost network ident =
     (case network ident of
        Inr response \<Rightarrow> ret response
      | Inl err \<Rightarrow>
          andThen (logger (LogError (''Linear API error: '' @ axiosMessage err)
                             (Some (axiosMessage err)))) (\<lambda>_.
            throw (LinearApiError (''Linear API error: '' @ axiosMessage err)
                     (responseStatus err) (responseData err))))"

definition LinearService_getIssue ::
  "LinearService \<Rightarrow> (string \<Rightarrow> int option) \<Rightarrow> (string \<Rightarrow> int) \<Rightarrow> linearNetwork \<Rightarrow> string
     \<Rightarrow> Issue option io" where
  "LinearService_getIssue this dateOf clock network ident =
     tryCatch
       (andThen (linearClientPost network ident) (\<lambda>response.
          case responseErrors response of
            Some errs \<Rightarrow>
              andThen (logger (LogWarning (''GraphQL errors for '' @ ident @ '': '' @ errs)))
                (\<lambda>_. ret None)
          | None \<Rightarrow>
              (case responseIssue response of
                 None \<Rightarrow>
                   andThen (logger (LogWarning (''Issue '' @ ident @ '' not found'')))
                     (\<lambda>_. ret None)
               | Some linearIssue \<Rightarrow>
                   if truthy (teamKey this) \<and> teamKeyOf (team linearIssue) \<noteq> the (teamKey this)
                   then andThen (logger (LogDebug (''Issue '' @ ident @ '' is not in team ''
                                   @ the (teamKey this) @ '', skipping''))) (\<lambda>_. ret None)
                   else andThen (logger (LogDebug (''Retrieved issue '' @ ident @ '': ''
                                   @ title linearIssue))) (\<lambda>_.
                     ret (Some (LinearService_convertToGenericIssue dateOf (clock ident)
                                  linearIssue))))))
       (\<lambda>err.
          andThen (logger (LogError (''Failed to get issue '' @ ident) (Some (errorMessage err))))
            (\<lambda>_. ret None))"

fun fetchEach ::
  "LinearService \<Rightarrow> (string \<Rightarrow> int option) \<Rightarrow> (string \<Rightarrow> int) \<Rightarrow> linearNetwork \<Rightarrow> string list
     \<Rightarrow> Issue list \<Rightarrow> Issue list io" where
  "fetchEach this dateOf clock network [] found = ret found"
| "fetchEach this dateOf clock network (issueId' # rest) found =
     andThen (LinearService_getIssue this dateOf clock network issueId') (\<lambda>issue.
       case issue of
         Some i \<Rightarrow> fetchEach this dateOf clock network rest (found @ [i])
       | None \<Rightarrow> fetchEach this dateOf clock network rest found)"

definition LinearService_getIssues ::
  "LinearService \<Rightarrow> (string \<Rightarrow> int option) \<Rightarrow> (string \<Rightarrow> int) \<Rightarrow> linearNetwork \<Rightarrow> string list
     \<Rightarrow> Issue list io" where
  "LinearService_getIssues this dateOf clock network issueIds =
     (if length issueIds = 0 then ret []
      else tryCatch
        (andThen (logger (LogGroup (''Fetching '' @ showNat (length issueIds)
                                     @ '' issues from Linear''))) (\<lambda>_.
         andThen (fetchEach this dateOf clock network issueIds []) (\<lambda>found.
         andThen (logger (LogInfo (''Found '' @ showNat (length found) @ '' issues''))) (\<lambda>_.
         andThen (logger LogEndGroup) (\<lambda>_.
         ret found)))))
        (\<lambda>err.
         andThen (logger (LogError ''Failed to get issues'' (Some (errorMessage err)))) (\<lambda>_.
         andThen (logger LogEndGroup) (\<lambda>_.
         ret []))))"

text \<open>The shared contract, dispatched on the adapter the factory constructed.\<close>

fun isInActiveSprint :: "IssueTrackerService \<Rightarrow> Issue \<Rightarrow> bool" where
  "isInActiveSprint (Jira this) issue = JiraService_isInActiveSprint issue"
| "isInActiveSprint (Linear this) issue = LinearService_isInActiveSprint issue"

fun filterByStatus :: "IssueTrackerService \<Rightarrow> Issue list \<Rightarrow> string list option \<Rightarrow> Issue list" where
  "filterByStatus (Jira this) issues allowed = JiraService_filterByStatus issues allowed"
| "filterByStatus (Linear this) issues allowed = LinearService_filterByStatus issues allowed"

fun getPmEmail :: "IssueTrackerService \<Rightarrow> Issue \<Rightarrow> string option" where
  "getPmEmail (Jira this) issue = JiraService_getPmEmail issue"
| "getPmEmail (Linear this) issue = LinearService_getPmEmail issue"

section \<open>Destination resolution\<close>

text \<open>
  The lookup-by-email call of the messaging platform is a parameter: for an email it gives
  the response, or \<open>Inl\<close> with the message of the error the client threw.
  \<open>getUserIdByEmail\<close> turns both a failed call and a response without a user into \<open>None\<close>.
\<close>

record SlackUser =
  slackUserId :: "string option"

record SlackLookupResponse =
  ok :: bool
  user :: "SlackUser option"

type_synonym slackNetwork = "string \<Rightarrow> string + SlackLookupResponse"

definition SlackService_getUserIdByEmail :: "slackNetwork \<Rightarrow> string \<Rightarrow> string option" where
  "SlackService_getUserIdByEmail network mail =
     (case network mail of
        Inl err \<Rightarrow> None
      | Inr response \<Rightarrow>
          if \<not> ok response \<or> user response = None then None
          else slackUserId (the (user response)))"

text \<open>
  The mapping is a plain object, so the property read \<^verbatim>\<open>config.pmMapping[projectKey]\<close>
  finds an own entry first and otherwise a member inherited from \<^verbatim>\<open>Object.prototype\<close>,
  which is a function or an object and therefore truthy; for any other key it is
  \<^verbatim>\<open>undefined\<close>. \<open>resolveSlackTarget\<close> returns whatever the read gave when that is truthy,
  so its result is a value that is either a string or such an inherited member.
\<close>

datatype jsValue = JsString string | JsInherited string

definition objectPrototypeMembers :: "string list" where
  "objectPrototypeMembers =
     [''constructor'', ''__defineGetter__'', ''__defineSetter__'', ''hasOwnProperty'',
      ''__lookupGetter__'', ''__lookupSetter__'', ''isPrototypeOf'', ''propertyIsEnumerable'',
      ''toString'', ''valueOf'', ''__proto__'', ''toLocaleString'']"

definition propertyRead :: "(string \<times> string) list \<Rightarrow> string \<Rightarrow> jsValue option" where
  "propertyRead obj k =
     (case map_of obj k of
        Some v \<Rightarrow> Some (JsString v)
      | None \<Rightarrow> if arrayIncludes objectPrototypeMembers k then Some (JsInherited k) else None)"

fun truthyValue :: "jsValue option \<Rightarrow> bool" where
  "truthyValue None = False"
| "truthyValue (Some (JsString s)) = (s \<noteq> [])"
| "truthyValue (Some (JsInherited member)) = True"

definition resolveSlackTarget ::
  "Issue list \<Rightarrow> Config \<Rightarrow> IssueTrackerService \<Rightarrow> slackNetwork \<Rightarrow> jsValue" where
  "resolveSlackTarget issues config trackerService slack =
     (let projectKey = getProjectKey config in
      if pmMapping config \<noteq> None \<and> length (the (pmMapping config)) > 0 \<and> truthy projectKey
         \<and> truthyValue (propertyRead (the (pmMapping config)) (the projectKey))
      then the (propertyRead (the (pmMapping config)) (the projectKey))
      else if length issues > 0 \<and> truthy (getPmEmail trackerService (issues ! 0))
         \<and> truthy (SlackService_getUserIdByEmail slack
                      (the (getPmEmail trackerService (issues ! 0))))
      then JsString (the (SlackService_getUserIdByEmail slack
                            (the (getPmEmail trackerService (issues ! 0)))))
      else JsString (slackChannelOrUser config))"

section \<open>The identifier format and its occurrences in a text\<close>

text \<open>
  The definitions of this section follow the words of the specification, not the source.
  An identifier is two to ten uppercase letters, a hyphen, and one or more digits
  (\<open>specTicketId\<close>; lemma \<open>specTicketId_iff\<close> below gives the same with the two parts named).
  It occurs in \<open>s\<close> as a whole word at position \<open>i\<close> with length \<open>n\<close> when the \<open>n\<close>
  characters from \<open>i\<close> on are an identifier, no word character (letter, digit or
  underscore) stands directly before them, and none directly after them. \<open>specOccurrences\<close>
  lists the whole-word occurrences by position, and \<open>specFirstSeen\<close> keeps the first of equal
  elements of a list.
\<close>

definition specTicketId :: "string \<Rightarrow> bool" where
  "specTicketId w \<longleftrightarrow>
     (let letters = takeWhile isUpperAZ w
      in 2 \<le> length letters \<and> length letters \<le> 10
         \<and> (case dropWhile isUpperAZ w of
               [] \<Rightarrow> False
             | c # ds \<Rightarrow> c = CHR ''-'' \<and> ds \<noteq> [] \<and> list_all isDigit ds))"

definition specWholeWordAt :: "string \<Rightarrow> nat \<Rightarrow> nat \<Rightarrow> bool" where
  "specWholeWordAt s i n \<longleftrightarrow>
     specTicketId (take n (drop i s))
     \<and> (i = 0 \<or> \<not> isWordChar (s ! (i - 1)))
     \<and> (i + n = length s \<or> \<not> isWordChar (s ! (i + n)))"

definition specOccurrencesAt :: "string \<Rightarrow> nat \<Rightarrow> string list" where
  "specOccurrencesAt s i =
     map (\<lambda>n. take n (drop i s)) (filter (specWholeWordAt s i) [1..<Suc (length s - i)])"

definition specOccurrences :: "string \<Rightarrow> string list" where
  "specOccurrences s = concat (map (specOccurrencesAt s) [0..<length s])"

fun specFirstSeen :: "'a list \<Rightarrow> 'a list" where
  "specFirstSeen [] = []"
| "specFirstSeen (x # xs) = x # specFirstSeen (filter (\<lambda>y. y \<noteq> x) xs)"

text \<open>
  The identifiers of a commit that a grouping key \<open>k\<close> keeps are those that begin with
  \<open>k\<close> and a hyphen; \<open>specParsedAs\<close> is the entry of a commit that keeps some.
\<close>

definition specKeptIds :: "string \<Rightarrow> Commit \<Rightarrow> string list" where
  "specKeptIds k commit = filter (prefix (k @ ''-'')) (extractTicketIds (commitMessage commit))"

definition specParsedAs :: "string \<Rightarrow> Commit \<Rightarrow> ParsedCommit" where
  "specParsedAs k commit =
     \<lparr>sha = commitId commit,
      message = takeWhile (\<lambda>c. c \<noteq> CHR 0x0A) (commitMessage commit),
      author = authorName (commitAuthor commit),
      ticketIds = specKeptIds k commit\<rparr>"

section \<open>Facts about the fetching methods\<close>

lemma snd_andThen:
  "snd (andThen m f) = (case snd m of Inl e \<Rightarrow> Inl e | Inr x \<Rightarrow> snd (f x))"
  by (simp add: andThen_def split: prod.split sum.split)

lemma fst_andThen:
  "fst (andThen m f) = (case snd m of Inl e \<Rightarrow> fst m | Inr x \<Rightarrow> fst m @ fst (f x))"
  by (simp add: andThen_def split: prod.split sum.split)

lemma snd_tryCatch:
  "snd (tryCatch m h) = (case snd m of Inl e \<Rightarrow> snd (h e) | Inr x \<Rightarrow> Inr x)"
  by (simp add: tryCatch_def split: prod.split sum.split)

lemma fst_tryCatch:
  "fst (tryCatch m h) = (case snd m of Inl e \<Rightarrow> fst m @ fst (h e) | Inr x \<Rightarrow> fst m)"
  by (simp add: tryCatch_def split: prod.split sum.split)

lemma io_simps [simp]:
  "fst (ret x) = []" "snd (ret x) = Inr x"
  "fst (throw e) = []" "snd (throw e) = Inl e"
  "fst (logger ev) = [ev]" "snd (logger ev) = Inr ()"
  by (simp_all add: ret_def throw_def logger_def)

lemmas io_split = snd_andThen fst_andThen snd_tryCatch fst_tryCatch

lemma getIssue_returns:
  "\<exists>r. snd (LinearService_getIssue this dateOf clock network ident) = Inr r"
  by (simp add: LinearService_getIssue_def linearClientPost_def io_split
      split: sum.split option.split)

lemma fetchEach_returns:
  "\<exists>r. snd (fetchEach this dateOf clock network ids found) = Inr r"
proof (induction ids arbitrary: found)
  case Nil
  then show ?case by simp
next
  case (Cons i ids)
  obtain r where g: "snd (LinearService_getIssue this dateOf clock network i) = Inr r"
    using getIssue_returns by blast
  show ?case
    using Cons.IH by (cases r) (simp_all add: io_split g)
qed

lemma getIssue_failure:
  "network ident = Inl err \<Longrightarrow>
   LinearService_getIssue this dateOf clock network ident =
     ([LogError (''Linear API error: '' @ axiosMessage err) (Some (axiosMessage err)),
       LogError (''Failed to get issue '' @ ident) (Some (''Linear API error: '' @ axiosMessage err))],
      Inr None)"
  by (simp add: LinearService_getIssue_def linearClientPost_def prod_eq_iff io_split)

lemma fetchEach_all_fail:
  "\<forall>i \<in> set ids. \<exists>err. network i = Inl err \<Longrightarrow>
   snd (fetchEach this dateOf clock network ids found) = Inr found
   \<and> (\<forall>i \<in> set ids. \<exists>m. LogError (''Failed to get issue '' @ i) (Some m)
          \<in> set (fst (fetchEach this dateOf clock network ids found)))"
proof (induction ids)
  case Nil
  then show ?case by simp
next
  case (Cons i ids)
  then obtain err where e: "network i = Inl err" by auto
  from Cons have IH: "snd (fetchEach this dateOf clock network ids found) = Inr found"
    "\<forall>i \<in> set ids. \<exists>m. LogError (''Failed to get issue '' @ i) (Some m)
          \<in> set (fst (fetchEach this dateOf clock network ids found))"
    by auto
  show ?case using IH
    by (auto simp: getIssue_failure [where network = network and ident = i, OF e] io_split)
qed

lemma jira_getIssues_returns:
  "\<exists>found. snd (JiraService_getIssues this network ids) = Inr found"
  by (simp add: JiraService_getIssues_def JiraService_getJiraIssues_def jiraClientPost_def
      io_split Let_def split: sum.split)

lemma linear_getIssues_returns:
  "\<exists>found. snd (LinearService_getIssues this dateOf clock network ids) = Inr found"
proof -
  obtain r where f: "snd (fetchEach this dateOf clock network ids []) = Inr r"
    using fetchEach_returns by blast
  show ?thesis
    by (simp add: LinearService_getIssues_def f io_split)
qed

section \<open>What the two patterns match\<close>

text \<open>
  A greedy repetition of a class, followed by atoms that cannot match where the class
  continues, takes the whole run of the class or fails: backtracking into the run never
  succeeds. Both patterns are of this form, which gives their matches in closed form
  (\<open>ticketRun\<close>), and then in terms of \<open>specTicketId\<close>.
\<close>

fun withinMax :: "nat option \<Rightarrow> nat \<Rightarrow> bool" where
  "withinMax None m = True"
| "withinMax (Some h) m = (m \<le> h)"

definition ticketRun :: "(string \<Rightarrow> bool) \<Rightarrow> string \<Rightarrow> nat option" where
  "ticketRun after s =
     (let m = length (takeWhile isUpperAZ s)
      in if 2 \<le> m \<and> m \<le> 10
         then (case drop m s of
                 [] \<Rightarrow> None
               | c # cs \<Rightarrow>
                   if c = CHR ''-''
                   then (let d = length (takeWhile isDigit cs)
                         in if 1 \<le> d \<and> after (drop d cs) then Some (Suc m + d) else None)
                   else None)
         else None)"

definition lastOpt :: "string \<Rightarrow> char option" where
  "lastOpt pre = (if pre = [] then None else Some (last pre))"

lemma map_option_add_zero [simp]: "map_option ((+) (0::nat)) x = x"
  by (cases x) simp_all

lemma greedy_run:
  assumes cont: "\<And>c t. inClass k c \<Longrightarrow> t \<noteq> [] \<Longrightarrow> inClass k (hd t) \<Longrightarrow> rmatch as (Some c) t = None"
    and start: "0 < lo \<or> (\<exists>c. prev = Some c \<and> inClass k c)"
  shows "rmatch (Greedy k lo hi # as) prev s =
     (let m = length (takeWhile (inClass k) s)
      in if lo \<le> m \<and> withinMax hi m
         then map_option ((+) m) (rmatch as (if m = 0 then prev else Some (s ! (m - 1))) (drop m s))
         else None)"
  using start
proof (induction s arbitrary: lo hi prev)
  case Nil
  then show ?case by (cases hi) auto
next
  case (Cons c cs)
  show ?case
  proof (cases "inClass k c")
    case False
    then show ?thesis by (cases hi) auto
  next
    case True
    show ?thesis
    proof (cases "hi = Some 0")
      case h0: True
      have "rmatch as prev (c # cs) = None" if "lo = 0"
        using Cons.prems that cont [of _ "c # cs"] True by auto
      then show ?thesis using True h0 by auto
    next
      case h1: False
      let ?m = "length (takeWhile (inClass k) cs)"
      have IH: "rmatch (Greedy k (lo - 1) (decMax hi) # as) (Some c) cs =
        (if lo - 1 \<le> ?m \<and> withinMax (decMax hi) ?m
         then map_option ((+) ?m) (rmatch as (if ?m = 0 then Some c else Some (cs ! (?m - 1))) (drop ?m cs))
         else None)"
        using Cons.IH [of "lo - 1" "Some c" "decMax hi"] True by (simp add: Let_def)
      define R where "R = rmatch (Greedy k (lo - 1) (decMax hi) # as) (Some c) cs"
      have fb: "rmatch as prev (c # cs) = None" if "lo = 0"
        using Cons.prems that cont [of _ "c # cs"] True by auto
      have lhs: "rmatch (Greedy k lo hi # as) prev (c # cs) = map_option Suc R"
        using True h1 fb by (cases R) (auto simp: R_def)
      have w: "withinMax (decMax hi) ?m \<longleftrightarrow> withinMax hi (Suc ?m)"
        using h1 by (cases hi) auto
      have l: "lo - 1 \<le> ?m \<longleftrightarrow> lo \<le> Suc ?m" by auto
      have p: "(if ?m = 0 then Some c else Some (cs ! (?m - 1))) = Some ((c # cs) ! ?m)"
        by (simp add: nth_Cons')
      have m: "map_option Suc (map_option ((+) ?m) x) = map_option ((+) (Suc ?m)) x" for x
        by (cases x) simp_all
      have "map_option Suc R =
        (if lo \<le> Suc ?m \<and> withinMax hi (Suc ?m)
         then map_option ((+) (Suc ?m)) (rmatch as (Some ((c # cs) ! ?m)) (drop ?m cs))
         else None)"
        unfolding R_def IH w l p by (simp add: m)
      then show ?thesis
        unfolding lhs using True by (simp add: Let_def)
    qed
  qed
qed

lemma inClass_fun [simp]:
  "inClass UpperAZ = isUpperAZ" "inClass DigitD = isDigit"
  by (rule ext, simp)+

lemma takeWhile_last_holds:
  "0 < length (takeWhile P xs) \<Longrightarrow> P (xs ! (length (takeWhile P xs) - 1))"
proof -
  assume a: "0 < length (takeWhile P xs)"
  let ?d = "length (takeWhile P xs)"
  have "takeWhile P xs ! (?d - 1) = xs ! (?d - 1)"
    using a by (intro takeWhile_nth) simp
  moreover have "takeWhile P xs ! (?d - 1) \<in> set (takeWhile P xs)"
    using a by (intro nth_mem) simp
  ultimately show ?thesis
    by (metis set_takeWhileD)
qed

lemma digit_is_word: "isDigit c \<Longrightarrow> isWordChar c"
  by (simp add: isWordChar_def)

lemma upper_is_word: "isUpperAZ c \<Longrightarrow> isWordChar c"
  by (simp add: isWordChar_def)

lemma hyphen_class [simp]:
  "\<not> isUpperAZ (CHR ''-'')" "\<not> isDigit (CHR ''-'')" "\<not> isWordChar (CHR ''-'')"
  by (simp_all add: isWordChar_def isUpperAZ_def isDigit_def isLowerAZ_def)

lemma upper_not_digit: "isUpperAZ c \<Longrightarrow> \<not> isDigit c"
  by (simp add: isUpperAZ_def isDigit_def)

lemma digits_then_boundary:
  "rmatch [Greedy DigitD 1 None, AssertWordB] prev cs =
     (let d = length (takeWhile isDigit cs)
      in if 1 \<le> d \<and> \<not> isWordAt (nextChar (drop d cs)) then Some d else None)"
proof -
  have cont: "rmatch [AssertWordB] (Some c) t = None"
    if "inClass DigitD c" "t \<noteq> []" "inClass DigitD (hd t)" for c t
    using that by (cases t) (simp_all add: digit_is_word)
  let ?d = "length (takeWhile isDigit cs)"
  have w: "isWordChar (cs ! (?d - 1))" if "1 \<le> ?d"
  proof -
    from that have "0 < ?d" by (cases "takeWhile isDigit cs") simp_all
    then have "isDigit (cs ! (?d - 1))" by (rule takeWhile_last_holds)
    then show ?thesis by (rule digit_is_word)
  qed
  show ?thesis
    using w by (subst greedy_run [OF cont]) (auto simp: Let_def)
qed

lemma digits_then_end:
  "rmatch [Greedy DigitD 1 None, AssertEnd] prev cs =
     (let d = length (takeWhile isDigit cs)
      in if 1 \<le> d \<and> drop d cs = [] then Some d else None)"
proof -
  have cont: "rmatch [AssertEnd] (Some c) t = None"
    if "inClass DigitD c" "t \<noteq> []" "inClass DigitD (hd t)" for c t
    using that by simp
  show ?thesis
    by (subst greedy_run [OF cont]) (auto simp: Let_def)
qed

lemma letters_then:
  assumes rest: "\<And>p cs. rmatch as p cs = f cs"
  shows "rmatch (Greedy UpperAZ 2 (Some 10) # One (Literal (CHR ''-'')) # as) prev s =
     (let m = length (takeWhile isUpperAZ s)
      in if 2 \<le> m \<and> m \<le> 10
         then (case drop m s of
                 [] \<Rightarrow> None
               | c # cs \<Rightarrow> if c = CHR ''-'' then map_option ((+) (Suc m)) (f cs) else None)
         else None)"
proof -
  have cont: "rmatch (One (Literal (CHR ''-'')) # as) (Some c) t = None"
    if "inClass UpperAZ c" "t \<noteq> []" "inClass UpperAZ (hd t)" for c t
    using that by (cases t) auto
  have m: "map_option ((+) m) (map_option Suc x) = map_option ((+) (Suc m)) x" for m :: nat and x
    by (cases x) simp_all
  show ?thesis
    by (subst greedy_run [OF cont])
       (auto simp: Let_def rest m split: list.split)
qed

lemma run_unique:
  assumes "\<forall>x \<in> set ls. P x" and "r = [] \<or> \<not> P (hd r)"
  shows "takeWhile P (ls @ r) = ls" and "dropWhile P (ls @ r) = r"
proof -
  have "takeWhile P r = []" and "dropWhile P r = r"
    using assms(2) by (cases r; simp)+
  then show "takeWhile P (ls @ r) = ls" and "dropWhile P (ls @ r) = r"
    using assms(1) by (simp_all add: takeWhile_append2 dropWhile_append2)
qed

lemma run_exists:
  "s = takeWhile P s @ dropWhile P s" "\<forall>x \<in> set (takeWhile P s). P x"
  "dropWhile P s = [] \<or> \<not> P (hd (dropWhile P s))"
proof -
  show "s = takeWhile P s @ dropWhile P s" by simp
  show "\<forall>x \<in> set (takeWhile P s). P x" by (auto dest: set_takeWhileD)
  show "dropWhile P s = [] \<or> \<not> P (hd (dropWhile P s))"
    by (cases "dropWhile P s = []") (simp_all add: hd_dropWhile)
qed

lemma specTicketId_iff:
  "specTicketId w \<longleftrightarrow>
     (\<exists>ls ds. w = ls @ CHR ''-'' # ds \<and> 2 \<le> length ls \<and> length ls \<le> 10
        \<and> (\<forall>c \<in> set ls. isUpperAZ c) \<and> ds \<noteq> [] \<and> (\<forall>c \<in> set ds. isDigit c))"
  (is "?L \<longleftrightarrow> ?R")
proof
  assume ?L
  then obtain ds where d: "dropWhile isUpperAZ w = CHR ''-'' # ds" "ds \<noteq> []" "list_all isDigit ds"
    and l: "2 \<le> length (takeWhile isUpperAZ w)" "length (takeWhile isUpperAZ w) \<le> 10"
    by (auto simp: specTicketId_def Let_def split: list.splits)
  have "w = takeWhile isUpperAZ w @ CHR ''-'' # ds"
    using run_exists(1) [of w isUpperAZ] d(1) by simp
  then show ?R
    using d l run_exists(2) [of isUpperAZ w] by (auto simp: list_all_iff)
next
  assume ?R
  then obtain ls ds where w: "w = ls @ CHR ''-'' # ds" and l: "2 \<le> length ls" "length ls \<le> 10"
    and u: "\<forall>c \<in> set ls. isUpperAZ c" and d: "ds \<noteq> []" "\<forall>c \<in> set ds. isDigit c"
    by blast
  have "takeWhile isUpperAZ w = ls" "dropWhile isUpperAZ w = CHR ''-'' # ds"
    unfolding w using run_unique [of ls isUpperAZ "CHR ''-'' # ds"] u by simp_all
  then show ?L
    using l d by (simp add: specTicketId_def list_all_iff)
qed

lemma ticketRun_iff:
  "ticketRun after s = Some n \<longleftrightarrow>
     (\<exists>ls ds r. s = ls @ CHR ''-'' # ds @ r \<and> 2 \<le> length ls \<and> length ls \<le> 10
        \<and> (\<forall>c \<in> set ls. isUpperAZ c) \<and> ds \<noteq> [] \<and> (\<forall>c \<in> set ds. isDigit c)
        \<and> (r = [] \<or> \<not> isDigit (hd r)) \<and> after r \<and> n = length ls + 1 + length ds)"
  (is "?L \<longleftrightarrow> ?R")
proof
  assume ?L
  let ?ls = "takeWhile isUpperAZ s"
  from \<open>?L\<close> obtain cs where m: "2 \<le> length ?ls" "length ?ls \<le> 10"
    and dr: "drop (length ?ls) s = CHR ''-'' # cs"
    and d: "1 \<le> length (takeWhile isDigit cs)" "after (drop (length (takeWhile isDigit cs)) cs)"
    and n: "n = Suc (length ?ls) + length (takeWhile isDigit cs)"
    by (auto simp: ticketRun_def Let_def split: list.splits if_splits)
  let ?ds = "takeWhile isDigit cs" and ?r = "dropWhile isDigit cs"
  have "dropWhile isUpperAZ s = CHR ''-'' # cs"
    using dr by (simp add: dropWhile_eq_drop)
  then have "s = ?ls @ CHR ''-'' # ?ds @ ?r"
    using run_exists(1) [of s isUpperAZ] by simp
  moreover have "after ?r" using d(2) by (simp add: dropWhile_eq_drop)
  moreover have "?ds \<noteq> []" using d(1) by auto
  ultimately show ?R
    using m n run_exists(2) [of isUpperAZ s] run_exists(2,3) [of isDigit cs]
    by (intro exI [of _ ?ls] exI [of _ ?ds] exI [of _ ?r]) auto
next
  assume ?R
  then obtain ls ds r where s: "s = ls @ CHR ''-'' # ds @ r" and l: "2 \<le> length ls" "length ls \<le> 10"
    and u: "\<forall>c \<in> set ls. isUpperAZ c" and d: "ds \<noteq> []" "\<forall>c \<in> set ds. isDigit c"
    and r: "r = [] \<or> \<not> isDigit (hd r)" "after r" and n: "n = length ls + 1 + length ds"
    by blast
  have 1: "takeWhile isUpperAZ s = ls"
    unfolding s using run_unique(1) [of ls isUpperAZ "CHR ''-'' # ds @ r"] u by simp
  have 2: "drop (length ls) s = CHR ''-'' # ds @ r"
    unfolding s by simp
  have 3: "takeWhile isDigit (ds @ r) = ds"
    using run_unique(1) [of ds isDigit r] d r by simp
  show ?L
  proof -
    have 4: "Suc 0 \<le> length ds" using d(1) by (cases ds) simp_all
    show ?thesis using l r n 4 by (simp add: ticketRun_def 1 2 3 Let_def)
  qed
qed

lemma map_option_if_Some:
  "map_option f (if b then Some x else None) = (if b then Some (f x) else None)"
  by simp

lemma rmatch_ISSUE_ID_PATTERN:
  "rmatch ISSUE_ID_PATTERN prev s =
     (if isWordAt prev \<noteq> isWordAt (nextChar s)
      then ticketRun (\<lambda>r. \<not> isWordAt (nextChar r)) s else None)"
proof -
  have "rmatch [Greedy UpperAZ 2 (Some 10), One (Literal (CHR ''-'')),
                Greedy DigitD 1 None, AssertWordB] prev s =
        ticketRun (\<lambda>r. \<not> isWordAt (nextChar r)) s"
    unfolding letters_then [OF digits_then_boundary] ticketRun_def Let_def map_option_if_Some
    by (rule refl)
  then show ?thesis
    unfolding ISSUE_ID_PATTERN_def by (subst rmatch.simps) (rule if_cong; simp)
qed

lemma rmatch_VALID_TICKET_ID_PATTERN:
  "rmatch VALID_TICKET_ID_PATTERN prev s =
     (if prev = None then ticketRun (\<lambda>r. r = []) s else None)"
proof -
  have "rmatch [Greedy UpperAZ 2 (Some 10), One (Literal (CHR ''-'')),
                Greedy DigitD 1 None, AssertEnd] prev s =
        ticketRun (\<lambda>r. r = []) s"
    unfolding letters_then [OF digits_then_end] ticketRun_def Let_def map_option_if_Some
    by (rule refl)
  then show ?thesis
    unfolding VALID_TICKET_ID_PATTERN_def by (subst rmatch.simps) (rule if_cong; simp)
qed

lemma not_word_not_digit: "\<not> isWordAt (nextChar r) \<Longrightarrow> r = [] \<or> \<not> isDigit (hd r)"
  by (cases r) (auto simp: digit_is_word)

lemma rmatch_issue_iff:
  "rmatch ISSUE_ID_PATTERN prev s = Some n \<longleftrightarrow>
     \<not> isWordAt prev \<and> n \<le> length s \<and> specTicketId (take n s)
     \<and> \<not> isWordAt (nextChar (drop n s))"
  (is "?L \<longleftrightarrow> ?R")
proof
  assume ?L
  then have b: "isWordAt prev \<noteq> isWordAt (nextChar s)"
    and t: "ticketRun (\<lambda>r. \<not> isWordAt (nextChar r)) s = Some n"
    by (auto simp: rmatch_ISSUE_ID_PATTERN split: if_splits)
  from t obtain ls ds r where s: "s = ls @ CHR ''-'' # ds @ r"
    and f: "2 \<le> length ls" "length ls \<le> 10" "\<forall>c \<in> set ls. isUpperAZ c" "ds \<noteq> []"
      "\<forall>c \<in> set ds. isDigit c"
    and r: "\<not> isWordAt (nextChar r)" and n: "n = length ls + 1 + length ds"
    unfolding ticketRun_iff by blast
  have tk: "take n s = ls @ CHR ''-'' # ds" and dr: "drop n s = r"
    unfolding s n by simp_all
  have "isWordAt (nextChar s)"
    using f(1,3) unfolding s by (cases ls) (auto simp: upper_is_word)
  with b have "\<not> isWordAt prev" by simp
  moreover have "n \<le> length s" unfolding s n by simp
  moreover have "specTicketId (take n s)"
    unfolding tk specTicketId_iff using f by blast
  ultimately show ?R using r dr by simp
next
  assume ?R
  then have p: "\<not> isWordAt prev" and n: "n \<le> length s" and t: "specTicketId (take n s)"
    and r: "\<not> isWordAt (nextChar (drop n s))"
    by simp_all
  from t obtain ls ds where tk: "take n s = ls @ CHR ''-'' # ds"
    and f: "2 \<le> length ls" "length ls \<le> 10" "\<forall>c \<in> set ls. isUpperAZ c" "ds \<noteq> []"
      "\<forall>c \<in> set ds. isDigit c"
    unfolding specTicketId_iff by blast
  have s: "s = ls @ CHR ''-'' # ds @ drop n s"
    using append_take_drop_id [of n s] tk by simp
  have len: "n = length ls + 1 + length ds"
    using arg_cong [OF tk, of length] n by simp
  have "isWordAt (nextChar s)"
    using f(1,3) by (subst s, cases ls) (auto simp: upper_is_word)
  with p have b: "isWordAt prev \<noteq> isWordAt (nextChar s)" by simp
  have "ticketRun (\<lambda>r. \<not> isWordAt (nextChar r)) s = Some n"
    unfolding ticketRun_iff using s f r len not_word_not_digit [OF r] by blast
  then show ?L using b by (simp add: rmatch_ISSUE_ID_PATTERN)
qed

lemma searchFrom_anchored:
  "searchFrom VALID_TICKET_ID_PATTERN (Some c) s = False"
  by (induction s arbitrary: c) (simp_all add: rmatch_VALID_TICKET_ID_PATTERN)

lemma isValidTicketId_iff: "isValidTicketId s \<longleftrightarrow> specTicketId s"
proof -
  have "isValidTicketId s \<longleftrightarrow> (\<exists>n. ticketRun (\<lambda>r. r = []) s = Some n)"
    unfolding isValidTicketId_def regexTest_def
    by (cases s) (auto simp: rmatch_VALID_TICKET_ID_PATTERN searchFrom_anchored)
  also have "\<dots> \<longleftrightarrow> specTicketId s"
    unfolding ticketRun_iff specTicketId_iff by auto
  finally show ?thesis .
qed

lemma filter_eq_upt: "a \<le> k \<Longrightarrow> k < b \<Longrightarrow> filter (\<lambda>n. k = n) [a..<b] = [k]"
proof (induction b)
  case 0
  then show ?case by simp
next
  case (Suc b)
  show ?case
  proof (cases "k = b")
    case True
    have "filter (\<lambda>n. k = n) [a..<b] = []"
      using True by (auto simp: filter_empty_conv)
    then show ?thesis using Suc.prems True by simp
  next
    case False
    then show ?thesis using Suc by simp
  qed
qed

lemma specTicketId_nonempty: "specTicketId w \<Longrightarrow> w \<noteq> []"
  by (auto simp: specTicketId_iff)

lemma specWholeWordAt_rmatch:
  assumes "n \<le> length s"
  shows "specWholeWordAt (pre @ s) (length pre) n \<longleftrightarrow>
         rmatch ISSUE_ID_PATTERN (lastOpt pre) s = Some n"
proof -
  have a: "(length pre = 0 \<or> \<not> isWordChar ((pre @ s) ! (length pre - 1)))
           \<longleftrightarrow> \<not> isWordAt (lastOpt pre)"
    by (cases pre rule: rev_cases) (simp_all add: lastOpt_def nth_append)
  have b: "(length pre + n = length (pre @ s) \<or> \<not> isWordChar ((pre @ s) ! (length pre + n)))
           \<longleftrightarrow> \<not> isWordAt (nextChar (drop n s))"
  proof (cases "drop n s")
    case Nil
    then show ?thesis using assms by simp
  next
    case (Cons c cs)
    then have l: "n < length s"
      by (cases "n < length s") simp_all
    then have "s ! n = c"
      using Cons_nth_drop_Suc [of n s] Cons by simp
    then show ?thesis using Cons l by (simp add: nth_append)
  qed
  show ?thesis
    unfolding specWholeWordAt_def rmatch_issue_iff a b using assms by auto
qed

lemma rmatch_issue_pos:
  "rmatch ISSUE_ID_PATTERN prev s = Some n \<Longrightarrow> 0 < n \<and> n \<le> length s"
  using specTicketId_nonempty [of "take n s"] by (auto simp: rmatch_issue_iff)

lemma specOccurrencesAt_rmatch:
  "specOccurrencesAt (pre @ s) (length pre) =
     (case rmatch ISSUE_ID_PATTERN (lastOpt pre) s of
        Some n \<Rightarrow> [take n s]
      | None \<Rightarrow> [])"
proof -
  have r: "[1..<Suc (length (pre @ s) - length pre)] = [1..<Suc (length s)]"
    and d: "drop (length pre) (pre @ s) = s"
    by simp_all
  have f: "filter (specWholeWordAt (pre @ s) (length pre)) [1..<Suc (length s)] =
        filter (\<lambda>n. rmatch ISSUE_ID_PATTERN (lastOpt pre) s = Some n) [1..<Suc (length s)]"
    by (rule filter_cong) (auto simp: specWholeWordAt_rmatch)
  show ?thesis
  proof (cases "rmatch ISSUE_ID_PATTERN (lastOpt pre) s")
    case None
    then show ?thesis
      unfolding specOccurrencesAt_def r d f by (simp del: upt_Suc)
  next
    case (Some k)
    then have "1 \<le> k" "k < Suc (length s)"
      using rmatch_issue_pos [of "lastOpt pre" s k] by auto
    then have "filter (\<lambda>n. k = n) [1..<Suc (length s)] = [k]"
      by (rule filter_eq_upt)
    then show ?thesis
      unfolding specOccurrencesAt_def r d f using Some by (simp del: upt_Suc)
  qed
qed

lemma no_match_inside:
  assumes m: "rmatch ISSUE_ID_PATTERN prev s = Some n" and j: "0 < j" "j < n"
  shows "rmatch ISSUE_ID_PATTERN (Some (s ! (j - 1))) (drop j s) = None"
proof (rule ccontr)
  assume "rmatch ISSUE_ID_PATTERN (Some (s ! (j - 1))) (drop j s) \<noteq> None"
  then obtain k where k: "rmatch ISSUE_ID_PATTERN (Some (s ! (j - 1))) (drop j s) = Some k"
    by auto
  then have nw: "\<not> isWordChar (s ! (j - 1))" and t: "specTicketId (take k (drop j s))"
    by (simp_all add: rmatch_issue_iff)
  from m have "specTicketId (take n s)" and nl: "n \<le> length s"
    by (simp_all add: rmatch_issue_iff)
  then obtain ls ds where tk: "take n s = ls @ CHR ''-'' # ds"
    and f: "\<forall>c \<in> set ls. isUpperAZ c" "ds \<noteq> []" "\<forall>c \<in> set ds. isDigit c"
    unfolding specTicketId_iff by blast
  have len: "n = length ls + 1 + length ds"
    using arg_cong [OF tk, of length] nl by simp
  have at: "s ! i = (ls @ CHR ''-'' # ds) ! i" if "i < n" for i
    using that nth_take [of i n s] tk by simp
  have "j - 1 < n" using j by simp
  consider "j \<le> length ls" | "j = length ls + 1" | "length ls + 1 < j"
    by linarith
  then show False
  proof cases
    case 1
    then have i: "j - 1 < length ls" using j by simp
    then have "s ! (j - 1) = ls ! (j - 1)"
      using at [of "j - 1"] j by (simp add: nth_append)
    moreover have "ls ! (j - 1) \<in> set ls" using i by simp
    ultimately show False using nw f(1) upper_is_word by metis
  next
    case 2
    from t obtain ls' ds' where tk': "take k (drop j s) = ls' @ CHR ''-'' # ds'"
      and f': "2 \<le> length ls'" "\<forall>c \<in> set ls'. isUpperAZ c"
      unfolding specTicketId_iff by blast
    have "s ! j = hd ds"
      using at [of j] j 2 f(2) by (simp add: nth_append hd_conv_nth)
    then have d: "isDigit (s ! j)" using f(2,3) by simp
    have k0: "0 < k" using tk' by (cases k) simp_all
    have "j < length s" using j nl by simp
    then have "take k (drop j s) ! 0 = s ! j" using k0 by simp
    moreover have "(ls' @ CHR ''-'' # ds') ! 0 = hd ls'"
      using f'(1) by (cases ls') simp_all
    moreover have "isUpperAZ (hd ls')" using f' by (cases ls') simp_all
    ultimately show False using d tk' upper_not_digit by metis
  next
    case 3
    then have i: "\<not> j - 1 < length ls" "j - 1 - length ls \<noteq> 0" "j - 1 < n"
      using j by simp_all
    have "s ! (j - 1) = (ls @ CHR ''-'' # ds) ! (j - 1)"
      using at [OF i(3)] .
    also have "\<dots> = ds ! (j - 1 - length ls - 1)"
      using i(1,2) by (simp add: nth_append nth_Cons')
    finally have "s ! (j - 1) = ds ! (j - 1 - length ls - 1)" .
    moreover have "ds ! (j - 1 - length ls - 1) \<in> set ds"
      using 3 j len by simp
    ultimately show False using nw f(3) digit_is_word by metis
  qed
qed

lemma lastOpt_snoc: "0 < j \<Longrightarrow> j \<le> length s \<Longrightarrow> lastOpt (pre @ take j s) = Some (s ! (j - 1))"
proof -
  assume j: "0 < j" "j \<le> length s"
  then have ne: "take j s \<noteq> []" by auto
  have "last (take j s) = take j s ! (length (take j s) - 1)"
    using ne by (rule last_conv_nth)
  also have "\<dots> = s ! (j - 1)" using j by simp
  finally show ?thesis using ne by (simp add: lastOpt_def)
qed

lemma specOccurrencesAt_inside:
  assumes m: "rmatch ISSUE_ID_PATTERN (lastOpt pre) s = Some n" and j: "0 < j" "j < n"
  shows "specOccurrencesAt (pre @ s) (length pre + j) = []"
proof -
  have n: "n \<le> length s" using rmatch_issue_pos [OF m] by simp
  then have l: "length (pre @ take j s) = length pre + j" using j by simp
  have "specOccurrencesAt ((pre @ take j s) @ drop j s) (length (pre @ take j s)) = []"
    unfolding specOccurrencesAt_rmatch
    using no_match_inside [OF m j] lastOpt_snoc [of j s pre] j n by simp
  then show ?thesis unfolding l by simp
qed

lemma scan_occurrences:
  "matchGlobal ISSUE_ID_PATTERN (lastOpt pre) s =
     concat (map (specOccurrencesAt (pre @ s)) [length pre..<length pre + length s])"
proof (induction "length s" arbitrary: s pre rule: less_induct)
  case less
  show ?case
  proof (cases "rmatch ISSUE_ID_PATTERN (lastOpt pre) s")
    case None
    show ?thesis
    proof (cases s)
      case Nil
      then show ?thesis using None by (subst matchGlobal.simps) simp
    next
      case (Cons c cs)
      have "matchGlobal ISSUE_ID_PATTERN (lastOpt pre) s =
            matchGlobal ISSUE_ID_PATTERN (lastOpt (pre @ [c])) cs"
        using None Cons by (subst matchGlobal.simps) (simp add: lastOpt_def)
      also have "\<dots> = concat (map (specOccurrencesAt ((pre @ [c]) @ cs))
                          [length (pre @ [c])..<length (pre @ [c]) + length cs])"
        using Cons by (intro less) simp
      also have "\<dots> = concat (map (specOccurrencesAt (pre @ s))
                          [Suc (length pre)..<length pre + length s])"
        using Cons by simp
      also have "\<dots> = concat (map (specOccurrencesAt (pre @ s))
                          [length pre..<length pre + length s])"
      proof -
        have "[length pre..<length pre + length s] =
              length pre # [Suc (length pre)..<length pre + length s]"
          using Cons by (intro upt_conv_Cons) simp
        then show ?thesis using None by (simp add: specOccurrencesAt_rmatch)
      qed
      finally show ?thesis .
    qed
  next
    case (Some n)
    then have n: "0 < n" "n \<le> length s"
      using rmatch_issue_pos by blast+
    let ?p = "length pre"
    have "matchGlobal ISSUE_ID_PATTERN (lastOpt pre) s =
          take n s # matchGlobal ISSUE_ID_PATTERN (lastOpt (pre @ take n s)) (drop n s)"
      using Some n by (subst matchGlobal.simps) (simp add: lastOpt_snoc)
    also have "matchGlobal ISSUE_ID_PATTERN (lastOpt (pre @ take n s)) (drop n s) =
        concat (map (specOccurrencesAt ((pre @ take n s) @ drop n s))
                  [length (pre @ take n s)..<length (pre @ take n s) + length (drop n s)])"
      using n by (intro less) simp
    also have "\<dots> = concat (map (specOccurrencesAt (pre @ s)) [?p + n..<?p + length s])"
      using n by simp
    finally have step: "matchGlobal ISSUE_ID_PATTERN (lastOpt pre) s =
        take n s # concat (map (specOccurrencesAt (pre @ s)) [?p + n..<?p + length s])" .
    have split: "[?p..<?p + length s] = ?p # [Suc ?p..<?p + n] @ [?p + n..<?p + length s]"
    proof -
      have "[?p..<?p + length s] = ?p # [Suc ?p..<?p + length s]"
        using n by (intro upt_conv_Cons) (cases s, simp_all)
      moreover have "[Suc ?p..<(?p + n) + (length s - n)] =
                     [Suc ?p..<?p + n] @ [?p + n..<(?p + n) + (length s - n)]"
        using n by (intro upt_add_eq_append) simp
      ultimately show ?thesis using n by simp
    qed
    have inner: "concat (map (specOccurrencesAt (pre @ s)) [Suc ?p..<?p + n]) = []"
    proof -
      have "specOccurrencesAt (pre @ s) i = []" if "i \<in> set [Suc ?p..<?p + n]" for i
      proof -
        from that have "0 < i - ?p" "i - ?p < n" "i = ?p + (i - ?p)" by auto
        then show ?thesis using specOccurrencesAt_inside [OF Some, of "i - ?p"] by metis
      qed
      then show ?thesis by simp
    qed
    show ?thesis
      unfolding step split using Some inner by (simp add: specOccurrencesAt_rmatch)
  qed
qed

lemma newSet_step:
  "foldl (\<lambda>acc x. if x \<in> set acc then acc else acc @ [x]) acc xs =
     acc @ specFirstSeen (filter (\<lambda>x. x \<notin> set acc) xs)"
proof (induction xs arbitrary: acc)
  case Nil
  then show ?case by simp
next
  case (Cons x xs)
  show ?case
  proof (cases "x \<in> set acc")
    case True
    then show ?thesis by (simp add: Cons.IH)
  next
    case False
    have "filter (\<lambda>y. y \<noteq> x) (filter (\<lambda>y. y \<notin> set acc) xs) =
          filter (\<lambda>y. y \<notin> set (acc @ [x])) xs"
      by (induction xs) auto
    then show ?thesis using False by (simp add: Cons.IH)
  qed
qed

lemma newSet_specFirstSeen: "newSet xs = specFirstSeen xs"
  by (simp add: newSet_def newSet_step)

lemma splitOn_nonempty: "splitOn c s \<noteq> []"
  by (induction s) (auto split: list.split)

lemma hd_splitOn: "hd (splitOn c s) = takeWhile (\<lambda>x. x \<noteq> c) s"
  using splitOn_nonempty [of c] by (induction s) (auto split: list.split)

lemma startsWith_iff: "startsWith s p \<longleftrightarrow> prefix p s"
proof
  assume "startsWith s p"
  then have "s = p @ drop (length p) s"
    using append_take_drop_id [of "length p" s] by (simp add: startsWith_def)
  then show "prefix p s" by (metis prefixI)
next
  assume "prefix p s"
  then show "startsWith s p" by (auto simp: prefix_def startsWith_def)
qed

lemma parseCommitsLoop_scoped:
  "k \<noteq> [] \<Longrightarrow>
   parseCommitsLoop commits (Some k) parsedCommits =
     parsedCommits @ map (specParsedAs k) (filter (\<lambda>c. specKeptIds k c \<noteq> []) commits)"
proof (induction commits arbitrary: parsedCommits)
  case Nil
  then show ?case by simp
next
  case (Cons c commits)
  have f: "filter (\<lambda>i. startsWith i (k @ ''-'')) (extractTicketIds (commitMessage c)) = specKeptIds k c"
    unfolding specKeptIds_def by (rule filter_cong) (simp_all add: startsWith_iff)
  show ?case
    using Cons.prems
    by (simp add: Cons.IH f Let_def specParsedAs_def hd_splitOn del: append_Cons)
qed

lemma set_specFirstSeen: "set (specFirstSeen xs) = set xs"
  by (induction xs rule: specFirstSeen.induct) auto

lemma distinct_specFirstSeen: "distinct (specFirstSeen xs)"
  by (induction xs rule: specFirstSeen.induct) (auto simp: set_specFirstSeen)

lemma set_occurrences:
  "set (specOccurrences s) = {take n (drop i s) | i n. i + n \<le> length s \<and> specWholeWordAt s i n}"
  (is "?L = ?R")
proof
  show "?L \<subseteq> ?R"
  proof
    fix w assume "w \<in> ?L"
    then obtain i n where "n \<in> set [1..<Suc (length s - i)]" "i \<in> set [0..<length s]"
      and "specWholeWordAt s i n" "w = take n (drop i s)"
      by (auto simp: specOccurrences_def specOccurrencesAt_def simp del: upt_Suc)
    moreover from this have "i + n \<le> length s" by auto
    ultimately show "w \<in> ?R" by blast
  qed
  show "?R \<subseteq> ?L"
  proof
    fix w assume "w \<in> ?R"
    then obtain i n where w: "w = take n (drop i s)" and b: "i + n \<le> length s"
      and o: "specWholeWordAt s i n"
      by blast
    from o have "specTicketId (take n (drop i s))"
      by (simp add: specWholeWordAt_def)
    then have "take n (drop i s) \<noteq> []"
      by (rule specTicketId_nonempty)
    then have "1 \<le> n" "i < length s"
      by (cases n; cases "i < length s"; simp)+
    then have "n \<in> set [1..<Suc (length s - i)]" "i \<in> set [0..<length s]"
      using b by auto
    then show "w \<in> ?L"
      unfolding specOccurrences_def specOccurrencesAt_def using o w by auto
  qed
qed

lemma matchGlobal_occurrences: "matchGlobal ISSUE_ID_PATTERN None s = specOccurrences s"
  using scan_occurrences [of "[]" s] by (simp add: lastOpt_def specOccurrences_def)

section \<open>Sample values\<close>

text \<open>Concrete configurations, issues, commits and network outcomes, at which the
  theorems below are instantiated.\<close>

definition cfgNoProjectKey :: Config where
  "cfgNoProjectKey =
     \<lparr>issueTracker = ''jira'',
      jiraBaseUrl = Some ''https://example.atlassian.net/'',
      jiraEmail = Some ''pm@example.com'',
      jiraApiToken = Some ''secret'',
      jiraProjectKey = None,
      linearApiKey = None,
      linearTeamKey = None,
      slackBotToken = ''xoxb'',
      slackChannelOrUser = ''C01234567'',
      environment = ''staging'',
      pmMapping = Some [],
      onlyActiveSprint = True,
      ticketStatusFilter = None\<rparr>"

definition cfgNoEmail :: Config where
  "cfgNoEmail = cfgNoProjectKey\<lparr>jiraEmail := None, jiraProjectKey := Some ''PROJ''\<rparr>"

definition cfgMapped :: Config where
  "cfgMapped = cfgNoProjectKey\<lparr>jiraProjectKey := Some ''AB'',
     pmMapping := Some [(''CD'', ''U0000000CD''), (''AB'', ''U0000000AB'')]\<rparr>"

definition cfgEmptyEntry :: Config where
  "cfgEmptyEntry = cfgNoProjectKey\<lparr>jiraProjectKey := Some ''AB'',
     pmMapping := Some [(''AB'', [])]\<rparr>"

definition cfgOtherKeyMapped :: Config where
  "cfgOtherKeyMapped = cfgNoProjectKey\<lparr>jiraProjectKey := Some ''AB'',
     pmMapping := Some [(''CD'', ''U0000000CD'')]\<rparr>"

definition cfgInheritedKey :: Config where
  "cfgInheritedKey = cfgNoProjectKey\<lparr>jiraProjectKey := Some ''constructor'',
     pmMapping := Some [(''AB'', ''U0000000AB'')]\<rparr>"

definition sampleJiraService :: JiraService where
  "sampleJiraService = newJiraService ''https://example.atlassian.net/'' ''pm@example.com'' ''secret''"

definition sampleLinearService :: LinearService where
  "sampleLinearService = newLinearService ''lin_api_key'' (Some ''ENG'')"

definition issueInActiveSprint :: Issue where
  "issueInActiveSprint =
     \<lparr>issueId = ''10001'', key = ''AB-1'', summary = ''Fix bug'', status = ''In Progress'',
      assignee = None,
      sprint = Some \<lparr>sprintName = ''Sprint 7'', sprintState = Active\<rparr>,
      cycle = None, pmEmail = Some ''owner@example.com'',
      url = ''https://example.atlassian.net/browse/AB-1''\<rparr>"

definition jiraIssueWithoutSprint :: JiraIssue where
  "jiraIssueWithoutSprint =
     \<lparr>jiraId = ''10002'', jiraKey = ''AB-2'',
      issueFields =
        \<lparr>fieldSummary = ''Write docs'',
         fieldStatus = \<lparr>statusName = ''To Do'', statusCategoryName = ''To Do''\<rparr>,
         fieldAssignee = None, fieldReporter = None, fieldSprint = None,
         customfield_pm = None\<rparr>,
      self = ''https://example.atlassian.net/rest/api/3/issue/10002''\<rparr>"

definition sampleDateOf :: "string \<Rightarrow> int option" where
  "sampleDateOf str =
     (if str = ''2024-03-04T00:00:00.000Z'' then Some 1709510400000
      else if str = ''2024-03-18T00:00:00.000Z'' then Some 1710720000000
      else None)"

definition sampleCycle :: LinearCycle where
  "sampleCycle =
     \<lparr>linearCycleName = ''Cycle 12'',
      startsAt = ''2024-03-04T00:00:00.000Z'',
      endsAt = ''2024-03-18T00:00:00.000Z'',
      completedAt = None\<rparr>"

definition sampleLinearIssue :: LinearIssue where
  "sampleLinearIssue =
     \<lparr>linearId = ''f3a1'', issueIdentifier = ''ENG-42'', title = ''Add export'',
      linearState = \<lparr>stateName = ''In Progress'', stateType = ''started''\<rparr>,
      linearAssignee = Some \<lparr>name = ''Ada'', email = ''ada@example.com''\<rparr>,
      linearCycle = Some sampleCycle,
      team = \<lparr>teamKeyOf = ''ENG'', teamName = ''Engineering''\<rparr>,
      linearUrl = ''https://linear.app/example/issue/ENG-42''\<rparr>"

definition failingJira :: jiraNetwork where
  "failingJira request =
     Inl \<lparr>axiosMessage = ''Request failed with status code 500'',
          responseStatus = Some 500, responseData = None\<rparr>"

definition failingLinear :: linearNetwork where
  "failingLinear ident =
     Inl \<lparr>axiosMessage = ''timeout of 30000ms exceeded'',
          responseStatus = None, responseData = None\<rparr>"

definition slackDirectory :: slackNetwork where
  "slackDirectory mail =
     (if mail = ''owner@example.com''
      then Inr \<lparr>ok = True, user = Some \<lparr>slackUserId = Some ''U0000OWNER''\<rparr>\<rparr>
      else Inl ''users_not_found'')"

definition sampleCommits :: "Commit list" where
  "sampleCommits =
     [\<lparr>commitId = ''3f2a9c1d'',
       commitMessage = ''AB-1 fix login (CD-2)'' @ [CHR 0x0A] @ ''details'',
       commitAuthor = \<lparr>authorName = ''Ada'', authorEmail = ''ada@example.com''\<rparr>\<rparr>,
      \<lparr>commitId = ''77b0e4aa'', commitMessage = ''CD-3 bump version'',
       commitAuthor = \<lparr>authorName = ''Bob'', authorEmail = ''bob@example.com''\<rparr>\<rparr>]"

section \<open>C1: required settings of the Jira variant\<close>

lemma createIssueTracker_jira:
  "issueTracker config = ''jira'' \<Longrightarrow>
     createIssueTracker config = map_sum id Jira (createJiraService config)"
  by (simp add: createIssueTracker_def)

text \<open>
  C1 (as stated). With the Jira variant selected, a missing project key alone makes
  \<open>createIssueTracker\<close> fail with a configuration error. This does not hold: the
  configuration \<open>cfgNoProjectKey\<close> has the base URL, the email and the token, lacks
  the project key, and the factory returns the Jira adapter.
\<close>

theorem createIssueTracker_project_key_counterexample:
  "issueTracker cfgNoProjectKey = ''jira''
   \<and> jiraProjectKey cfgNoProjectKey = None
   \<and> createIssueTracker cfgNoProjectKey =
       Inr (Jira \<lparr>baseUrl = ''https://example.atlassian.net'',
                   authUsername = ''pm@example.com'', authPassword = ''secret''\<rparr>)"
  by (simp add: cfgNoProjectKey_def createIssueTracker_def createJiraService_def
      newJiraService_def removeTrailingSlash_def)

text \<open>
  C1 (amended). With the Jira variant selected, \<open>createIssueTracker\<close> validates three
  settings, in this order: base URL, account email, secret token. If one is missing (absent
  or empty) it fails with a \<open>ConfigurationError\<close> whose message starts with the name of the
  first missing one; if all three are present it returns the Jira adapter built from them,
  whatever the project key is. So construction fails exactly when one of the three is
  missing.
\<close>

theorem createIssueTracker_jira_required_fields:
  assumes "issueTracker config = ''jira''"
  shows "(\<not> truthy (jiraBaseUrl config) \<longrightarrow>
            (\<exists>msg. createIssueTracker config = Inl (ConfigurationError msg)
                   \<and> prefix ''jira_base_url'' msg))
       \<and> (truthy (jiraBaseUrl config) \<and> \<not> truthy (jiraEmail config) \<longrightarrow>
            (\<exists>msg. createIssueTracker config = Inl (ConfigurationError msg)
                   \<and> prefix ''jira_email'' msg))
       \<and> (truthy (jiraBaseUrl config) \<and> truthy (jiraEmail config)
            \<and> \<not> truthy (jiraApiToken config) \<longrightarrow>
            (\<exists>msg. createIssueTracker config = Inl (ConfigurationError msg)
                   \<and> prefix ''jira_api_token'' msg))
       \<and> (truthy (jiraBaseUrl config) \<and> truthy (jiraEmail config)
            \<and> truthy (jiraApiToken config) \<longrightarrow>
            createIssueTracker config =
              Inr (Jira (newJiraService (the (jiraBaseUrl config)) (the (jiraEmail config))
                           (the (jiraApiToken config)))))
       \<and> ((\<exists>e. createIssueTracker config = Inl e) \<longleftrightarrow>
            \<not> (truthy (jiraBaseUrl config) \<and> truthy (jiraEmail config)
               \<and> truthy (jiraApiToken config)))"
  using assms
  by (simp add: createIssueTracker_jira createJiraService_def)

theorem createIssueTracker_jira_required_fields_witness:
  \<open>issueTracker cfgNoEmail = ''jira''
   \<and> truthy (jiraBaseUrl cfgNoEmail) \<and> \<not> truthy (jiraEmail cfgNoEmail)
   \<and> createIssueTracker cfgNoEmail =
       Inl (ConfigurationError ''jira_email is required when issue_tracker is "jira"'')\<close>
proof -
  have sel: "issueTracker cfgNoEmail = ''jira''"
    by (simp add: cfgNoEmail_def cfgNoProjectKey_def)
  show ?thesis
    using createIssueTracker_jira_required_fields [OF sel]
    by (simp add: cfgNoEmail_def cfgNoProjectKey_def createIssueTracker_def
        createJiraService_def)
qed

section \<open>C2: ticket extraction\<close>

text \<open>
  C2. For every input string \<open>extractTicketIds\<close> returns the whole-word occurrences of the
  identifier pattern, each distinct identifier once, in the order of first appearance: it is
  \<open>specFirstSeen\<close> of the occurrences listed by position, so it is duplicate-free and its
  elements are exactly the substrings that occur as a whole-word identifier. A text without
  such an occurrence yields the empty list.
\<close>

theorem extractTicketIds_spec:
  "extractTicketIds s = specFirstSeen (specOccurrences s)
   \<and> distinct (extractTicketIds s)
   \<and> set (extractTicketIds s) =
       {take n (drop i s) | i n. i + n \<le> length s \<and> specWholeWordAt s i n}
   \<and> (specOccurrences s = [] \<longrightarrow> extractTicketIds s = [])"
proof -
  have e: "extractTicketIds s = specFirstSeen (specOccurrences s)"
    by (cases "specOccurrences s")
       (simp_all add: extractTicketIds_def matchGlobal_occurrences newSet_specFirstSeen)
  show ?thesis
    unfolding e by (simp add: distinct_specFirstSeen set_specFirstSeen set_occurrences)
qed

theorem extractTicketIds_spec_witness:
  "specOccurrences ''ab-1 A-1'' = []
   \<and> extractTicketIds ''ab-1 A-1'' = []
   \<and> extractTicketIds ''ABCDEFGHIJK-1 AB- x'' = []
   \<and> specOccurrences ''AB-1 (CD-2) AB-1'' = [''AB-1'', ''CD-2'', ''AB-1'']
   \<and> extractTicketIds ''AB-1 (CD-2) AB-1'' = [''AB-1'', ''CD-2'']"
proof -
  have 1: "specOccurrences ''ab-1 A-1'' = []"
    by code_simp
  have 2: "extractTicketIds ''ABCDEFGHIJK-1 AB- x'' = []"
    by code_simp
  have 3: "specOccurrences ''AB-1 (CD-2) AB-1'' = [''AB-1'', ''CD-2'', ''AB-1'']"
    by code_simp
  show ?thesis
    using extractTicketIds_spec [of "''ab-1 A-1''"] extractTicketIds_spec [of "''AB-1 (CD-2) AB-1''"]
    by (simp add: 1 2 3)
qed

section \<open>C3: derived cycle state\<close>

text \<open>
  C3. The Linear adapter stores no cycle state: the conversion computes it with
  \<open>getCycleState\<close> from the cycle's timestamps and the clock. For a cycle whose
  \<open>startsAt\<close> and \<open>endsAt\<close> are timestamps (they parse to the time values \<open>s\<close> and \<open>e\<close>):
  if \<open>completedAt\<close> is set, the state is \<open>Completed\<close>, whatever the timestamps are;
  otherwise it is \<open>Unstarted\<close> if \<open>now < s\<close>, \<open>Started\<close> if \<open>s \<le> now \<le> e\<close>, and
  \<open>Completed\<close> in the remaining case. "Set" is the source's test \<^verbatim>\<open>if (cycle.completedAt)\<close>:
  present and not the empty string.
\<close>

theorem getCycleState_rule:
  "(truthy (completedAt c) \<longrightarrow> getCycleState dateOf now (Some c) = Completed)
   \<and> (\<not> truthy (completedAt c) \<and> dateOf (startsAt c) = Some s \<and> dateOf (endsAt c) = Some e \<longrightarrow>
        getCycleState dateOf now (Some c) =
          (if now < s then Unstarted
           else if s \<le> now \<and> now \<le> e then Started
           else Completed))
   \<and> (linearCycle linearIssue = Some c \<longrightarrow>
        cycle (LinearService_convertToGenericIssue dateOf now linearIssue) =
          Some \<lparr>cycleName = linearCycleName c,
                cycleState = getCycleState dateOf now (Some c)\<rparr>)"
  by (simp add: getCycleState_def LinearService_convertToGenericIssue_def)

theorem getCycleState_rule_witness:
  "\<not> truthy (completedAt sampleCycle)
   \<and> sampleDateOf (startsAt sampleCycle) = Some 1709510400000
   \<and> sampleDateOf (endsAt sampleCycle) = Some 1710720000000
   \<and> linearCycle sampleLinearIssue = Some sampleCycle
   \<and> truthy (completedAt (sampleCycle\<lparr>completedAt := Some ''2024-03-15T09:00:00.000Z''\<rparr>))
   \<and> getCycleState sampleDateOf 1709000000000 (Some sampleCycle) = Unstarted
   \<and> getCycleState sampleDateOf 1710000000000 (Some sampleCycle) = Started
   \<and> getCycleState sampleDateOf 1710720000000 (Some sampleCycle) = Started
   \<and> getCycleState sampleDateOf 1710720000001 (Some sampleCycle) = Completed
   \<and> getCycleState sampleDateOf 1710000000000
        (Some (sampleCycle\<lparr>completedAt := Some ''2024-03-15T09:00:00.000Z''\<rparr>)) = Completed
   \<and> cycle (LinearService_convertToGenericIssue sampleDateOf 1710000000000 sampleLinearIssue) =
        Some \<lparr>cycleName = ''Cycle 12'', cycleState = Started\<rparr>"
  using getCycleState_rule
    [of sampleCycle sampleDateOf 1709000000000 1709510400000 1710720000000 sampleLinearIssue]
    getCycleState_rule
    [of sampleCycle sampleDateOf 1710000000000 1709510400000 1710720000000 sampleLinearIssue]
    getCycleState_rule
    [of sampleCycle sampleDateOf 1710720000000 1709510400000 1710720000000 sampleLinearIssue]
    getCycleState_rule
    [of sampleCycle sampleDateOf 1710720000001 1709510400000 1710720000000 sampleLinearIssue]
    getCycleState_rule
    [of "sampleCycle\<lparr>completedAt := Some ''2024-03-15T09:00:00.000Z''\<rparr>"
        sampleDateOf 1710000000000 1709510400000 1710720000000 sampleLinearIssue]
  by (simp add: sampleCycle_def sampleDateOf_def sampleLinearIssue_def)

section \<open>C4: priority of the destination\<close>

lemma truthy_iff: "truthy x \<longleftrightarrow> (\<exists>v. x = Some v \<and> v \<noteq> [])"
  by (cases x) simp_all

lemma getPmEmail_pmEmail: "getPmEmail trackerService issue = pmEmail issue"
  by (cases trackerService)
     (simp_all add: JiraService_getPmEmail_def LinearService_getPmEmail_def)

lemma propertyRead_own: "map_of obj k = Some d \<Longrightarrow> propertyRead obj k = Some (JsString d)"
  by (simp add: propertyRead_def)

lemma propertyRead_missing:
  "map_of obj k = None \<Longrightarrow> k \<notin> set objectPrototypeMembers \<Longrightarrow> propertyRead obj k = None"
  by (simp add: propertyRead_def arrayIncludes_iff)

text \<open>
  A grouping key that is the name of an inherited member and has no own entry makes a
  non-empty mapping answer with that member: the model follows the source there.
\<close>

lemma resolveSlackTarget_inherited_member:
  assumes "pmMapping config = Some obj" and "obj \<noteq> []" and "getProjectKey config = Some k"
    and "map_of obj k = None" and "k \<in> set objectPrototypeMembers"
  shows "resolveSlackTarget issues config trackerService slack = JsInherited k"
proof -
  from assms(5) have "k \<noteq> []"
    by (auto simp: objectPrototypeMembers_def)
  then show ?thesis
    using assms by (simp add: resolveSlackTarget_def propertyRead_def arrayIncludes_iff)
qed

lemma resolveSlackTarget_inherited_member_example:
  "resolveSlackTarget [issueInActiveSprint] cfgInheritedKey (Jira sampleJiraService) slackDirectory
     = JsInherited ''constructor''"
  by (rule resolveSlackTarget_inherited_member [where obj = "[(''AB'', ''U0000000AB'')]"])
     (simp_all add: cfgInheritedKey_def cfgNoProjectKey_def getProjectKey_def
        objectPrototypeMembers_def)

text \<open>
  C4 (as stated). If the mapping contains an entry for the active grouping key, that entry
  is returned without consulting issue data. This does not hold for an entry that is the
  empty string: in \<open>cfgEmptyEntry\<close> the mapping has the empty string as the entry for the
  active key \<open>AB\<close>, and the result is the user id that the owner email of the first issue
  resolves to.
\<close>

theorem resolveSlackTarget_empty_entry_counterexample:
  "pmMapping cfgEmptyEntry = Some [(''AB'', [])]
   \<and> getProjectKey cfgEmptyEntry = Some ''AB''
   \<and> map_of [(''AB'', [])] ''AB'' = Some []
   \<and> pmEmail issueInActiveSprint = Some ''owner@example.com''
   \<and> resolveSlackTarget [issueInActiveSprint] cfgEmptyEntry (Jira sampleJiraService)
         slackDirectory
       = JsString ''U0000OWNER''"
  by (simp add: cfgEmptyEntry_def cfgNoProjectKey_def getProjectKey_def resolveSlackTarget_def
      propertyRead_def JiraService_getPmEmail_def issueInActiveSprint_def
      SlackService_getUserIdByEmail_def slackDirectory_def)

text \<open>
  C4 (amended). \<open>resolveSlackTarget\<close> returns one destination, chosen in this order.
  (a) If the mapping is configured and has a non-empty entry \<open>d\<close> for the non-empty active
  grouping key \<open>k\<close>, the result is \<open>d\<close>, for every issue list, adapter and lookup outcome.
  (b) Otherwise, provided the grouping key is not the name of a member inherited from
  \<^verbatim>\<open>Object.prototype\<close>, if the non-empty owner email \<open>e\<close> of the first issue resolves to
  the non-empty user id \<open>u\<close>, the result is \<open>u\<close>.
  (c) Otherwise, under the same proviso, the result is the configured default destination.
  An entry, a key, an owner email or a user id that is the empty string counts as absent:
  the source tests each with \<^verbatim>\<open>if (x)\<close>.
\<close>

theorem resolveSlackTarget_priority:
  "(pmMapping config = Some m \<and> getProjectKey config = Some k \<and> k \<noteq> []
      \<and> map_of m k = Some d \<and> d \<noteq> [] \<longrightarrow>
      resolveSlackTarget issues config trackerService slack = JsString d)
   \<and> (\<not> (\<exists>m k d. pmMapping config = Some m \<and> getProjectKey config = Some k \<and> k \<noteq> []
              \<and> map_of m k = Some d \<and> d \<noteq> [])
        \<and> (\<forall>k. getProjectKey config = Some k \<longrightarrow> k \<notin> set objectPrototypeMembers) \<longrightarrow>
        (issues = first # others \<and> pmEmail first = Some e \<and> e \<noteq> []
           \<and> SlackService_getUserIdByEmail slack e = Some u \<and> u \<noteq> [] \<longrightarrow>
           resolveSlackTarget issues config trackerService slack = JsString u)
        \<and> (\<not> (\<exists>first others e u. issues = first # others \<and> pmEmail first = Some e \<and> e \<noteq> []
                \<and> SlackService_getUserIdByEmail slack e = Some u \<and> u \<noteq> []) \<longrightarrow>
           resolveSlackTarget issues config trackerService slack =
             JsString (slackChannelOrUser config)))"
proof -
  note pm = getPmEmail_pmEmail and t = truthy_iff
  have a: "pmMapping config = Some m \<and> getProjectKey config = Some k \<and> k \<noteq> []
      \<and> map_of m k = Some d \<and> d \<noteq> [] \<longrightarrow>
      resolveSlackTarget issues config trackerService slack = JsString d"
    by (auto simp: resolveSlackTarget_def propertyRead_own)
  have b: "resolveSlackTarget issues config trackerService slack =
        (if length issues > 0 \<and> truthy (pmEmail (issues ! 0))
            \<and> truthy (SlackService_getUserIdByEmail slack (the (pmEmail (issues ! 0))))
         then JsString (the (SlackService_getUserIdByEmail slack (the (pmEmail (issues ! 0)))))
         else JsString (slackChannelOrUser config))"
    if n: "\<not> (\<exists>m k d. pmMapping config = Some m \<and> getProjectKey config = Some k \<and> k \<noteq> []
              \<and> map_of m k = Some d \<and> d \<noteq> [])"
      and i: "\<forall>k. getProjectKey config = Some k \<longrightarrow> k \<notin> set objectPrototypeMembers"
  proof -
    have "\<not> truthyValue (propertyRead obj k)"
      if "pmMapping config = Some obj" "getProjectKey config = Some k" "k \<noteq> []" for obj k
    proof (cases "map_of obj k")
      case None
      then show ?thesis using i that by (simp add: propertyRead_missing)
    next
      case (Some d)
      then have "d = []" using n that by blast
      then show ?thesis using Some by (simp add: propertyRead_own)
    qed
    then have "\<not> (pmMapping config \<noteq> None \<and> length (the (pmMapping config)) > 0
          \<and> truthy (getProjectKey config)
          \<and> truthyValue (propertyRead (the (pmMapping config)) (the (getProjectKey config))))"
      by (auto simp: t)
    then show ?thesis
      unfolding resolveSlackTarget_def Let_def pm by (simp only: if_False)
  qed
  show ?thesis
  proof (intro conjI impI)
    show "resolveSlackTarget issues config trackerService slack = JsString d"
      if "pmMapping config = Some m \<and> getProjectKey config = Some k \<and> k \<noteq> []
          \<and> map_of m k = Some d \<and> d \<noteq> []"
      using a that by blast
  next
    assume n: "\<not> (\<exists>m k d. pmMapping config = Some m \<and> getProjectKey config = Some k
        \<and> k \<noteq> [] \<and> map_of m k = Some d \<and> d \<noteq> [])
        \<and> (\<forall>k. getProjectKey config = Some k \<longrightarrow> k \<notin> set objectPrototypeMembers)"
    then have r: "resolveSlackTarget issues config trackerService slack =
        (if length issues > 0 \<and> truthy (pmEmail (issues ! 0))
            \<and> truthy (SlackService_getUserIdByEmail slack (the (pmEmail (issues ! 0))))
         then JsString (the (SlackService_getUserIdByEmail slack (the (pmEmail (issues ! 0)))))
         else JsString (slackChannelOrUser config))"
      using b by blast
    show "resolveSlackTarget issues config trackerService slack = JsString u"
      if "issues = first # others \<and> pmEmail first = Some e \<and> e \<noteq> []
          \<and> SlackService_getUserIdByEmail slack e = Some u \<and> u \<noteq> []"
      using that by (subst r) simp
    show "resolveSlackTarget issues config trackerService slack =
        JsString (slackChannelOrUser config)"
      if "\<not> (\<exists>first others e u. issues = first # others \<and> pmEmail first = Some e \<and> e \<noteq> []
              \<and> SlackService_getUserIdByEmail slack e = Some u \<and> u \<noteq> [])"
      using that by (subst r, cases issues) (auto simp: t)
  qed
qed

theorem resolveSlackTarget_priority_witness:
  "pmMapping cfgMapped = Some [(''CD'', ''U0000000CD''), (''AB'', ''U0000000AB'')]
   \<and> getProjectKey cfgMapped = Some ''AB''
   \<and> map_of [(''CD'', ''U0000000CD''), (''AB'', ''U0000000AB'')] ''AB'' = Some ''U0000000AB''
   \<and> pmEmail issueInActiveSprint = Some ''owner@example.com''
   \<and> SlackService_getUserIdByEmail slackDirectory ''owner@example.com'' = Some ''U0000OWNER''
   \<and> resolveSlackTarget [issueInActiveSprint] cfgMapped (Jira sampleJiraService) slackDirectory
       = JsString ''U0000000AB''
   \<and> getProjectKey cfgOtherKeyMapped = Some ''AB''
   \<and> map_of [(''CD'', ''U0000000CD'')] ''AB'' = None
   \<and> ''AB'' \<notin> set objectPrototypeMembers
   \<and> resolveSlackTarget [issueInActiveSprint] cfgOtherKeyMapped (Jira sampleJiraService)
         slackDirectory
       = JsString ''U0000OWNER''
   \<and> getProjectKey cfgNoProjectKey = None
   \<and> resolveSlackTarget [] cfgNoProjectKey (Jira sampleJiraService) slackDirectory
       = JsString ''C01234567''"
  using resolveSlackTarget_priority
    [where config = cfgMapped and issues = "[issueInActiveSprint]"
       and trackerService = "Jira sampleJiraService" and slack = slackDirectory
       and m = "[(''CD'', ''U0000000CD''), (''AB'', ''U0000000AB'')]" and k = "''AB''"
       and d = "''U0000000AB''"]
    resolveSlackTarget_priority
    [where config = cfgOtherKeyMapped and issues = "[issueInActiveSprint]"
       and trackerService = "Jira sampleJiraService" and slack = slackDirectory
       and first = issueInActiveSprint and others = "[]" and e = "''owner@example.com''"
       and u = "''U0000OWNER''"]
    resolveSlackTarget_priority
    [where config = cfgNoProjectKey and issues = "[]"
       and trackerService = "Jira sampleJiraService" and slack = slackDirectory]
  by (simp add: cfgMapped_def cfgOtherKeyMapped_def cfgNoProjectKey_def getProjectKey_def
      issueInActiveSprint_def SlackService_getUserIdByEmail_def slackDirectory_def
      objectPrototypeMembers_def)

section \<open>C5: scoping the commits by the grouping key\<close>

text \<open>
  C5. With a grouping key \<open>k\<close> supplied (a non-empty string), \<open>parseCommits\<close> returns, in
  the order of the commits, one entry for each commit that has an extracted identifier
  beginning with \<open>k\<close> and a hyphen; the entry holds exactly those identifiers, in their
  order. A commit none of whose identifiers survives has no entry, so no entry has an empty
  identifier list.
\<close>

theorem parseCommits_scoped:
  "k \<noteq> [] \<longrightarrow>
     parseCommits commits (Some k) =
       map (specParsedAs k) (filter (\<lambda>c. specKeptIds k c \<noteq> []) commits)
     \<and> (\<forall>p \<in> set (parseCommits commits (Some k)). ticketIds p \<noteq> [])"
  by (auto simp: parseCommits_def parseCommitsLoop_scoped specParsedAs_def)

theorem parseCommits_scoped_witness:
  "''AB'' \<noteq> []
   \<and> extractTicketIds (commitMessage (sampleCommits ! 0)) = [''AB-1'', ''CD-2'']
   \<and> extractTicketIds (commitMessage (sampleCommits ! 1)) = [''CD-3'']
   \<and> parseCommits sampleCommits (Some ''AB'') =
       [\<lparr>sha = ''3f2a9c1d'', message = ''AB-1 fix login (CD-2)'', author = ''Ada'',
         ticketIds = [''AB-1'']\<rparr>]"
proof -
  have 1: "extractTicketIds (commitMessage (sampleCommits ! 0)) = [''AB-1'', ''CD-2'']"
    by code_simp
  have 2: "extractTicketIds (commitMessage (sampleCommits ! 1)) = [''CD-3'']"
    by code_simp
  show ?thesis
    using parseCommits_scoped [of "''AB''" sampleCommits] 1 2
    by (simp add: sampleCommits_def specParsedAs_def specKeptIds_def)
qed

section \<open>C6: active iteration\<close>

text \<open>
  C6. \<open>isInActiveSprint\<close> holds exactly when the issue carries an iteration in its open
  state: under the Jira adapter a sprint whose state is \<open>Active\<close>, under the Linear adapter
  a cycle whose state is \<open>Started\<close>. An issue without the adapter's iteration yields false.
\<close>

theorem isInActiveSprint_iff_open_iteration:
  "(isInActiveSprint (Jira j) issue \<longleftrightarrow>
      (\<exists>sp. sprint issue = Some sp \<and> sprintState sp = Active))
   \<and> (isInActiveSprint (Linear l) issue \<longleftrightarrow>
      (\<exists>c. cycle issue = Some c \<and> cycleState c = Started))
   \<and> (sprint issue = None \<longrightarrow> \<not> isInActiveSprint (Jira j) issue)
   \<and> (cycle issue = None \<longrightarrow> \<not> isInActiveSprint (Linear l) issue)"
  by (simp add: JiraService_isInActiveSprint_def LinearService_isInActiveSprint_def
      split: option.split)

theorem isInActiveSprint_iff_open_iteration_witness:
  "sprint issueInActiveSprint = Some \<lparr>sprintName = ''Sprint 7'', sprintState = Active\<rparr>
   \<and> cycle issueInActiveSprint = None
   \<and> isInActiveSprint (Jira sampleJiraService) issueInActiveSprint
   \<and> \<not> isInActiveSprint (Linear sampleLinearService) issueInActiveSprint"
  using isInActiveSprint_iff_open_iteration
    [of sampleJiraService issueInActiveSprint sampleLinearService]
  by (simp add: issueInActiveSprint_def)

section \<open>C7: fetching never fails\<close>

text \<open>
  C7. In both adapters \<open>getIssues\<close> of the empty list returns the empty list, without a
  request and without a log entry, and \<open>getIssues\<close> never throws: its outcome is always a
  returned list. When the batch fails, the list is empty and the failure is logged: for
  Jira, when the one search request fails, the log has the entry \<open>Failed to get issues\<close>
  with the tracker error's message; for Linear, where each identifier has its own request
  and its own handler, when every request fails, the log has an entry
  \<open>Failed to get issue <id>\<close> for each identifier.
\<close>

theorem getIssues_empty_and_failure:
  "JiraService_getIssues jira jnet [] = ([], Inr [])
   \<and> LinearService_getIssues linear dateOf clock lnet [] = ([], Inr [])
   \<and> (\<exists>found. snd (JiraService_getIssues jira jnet ids) = Inr found)
   \<and> (\<exists>found. snd (LinearService_getIssues linear dateOf clock lnet ids) = Inr found)
   \<and> (ids \<noteq> [] \<and> jnet (jiraSearchRequest ids) = Inl err \<longrightarrow>
        snd (JiraService_getIssues jira jnet ids) = Inr []
        \<and> LogError ''Failed to get issues'' (Some (''Jira API error: '' @ axiosMessage err))
            \<in> set (fst (JiraService_getIssues jira jnet ids)))
   \<and> (ids \<noteq> [] \<and> (\<forall>i \<in> set ids. \<exists>e. lnet i = Inl e) \<longrightarrow>
        snd (LinearService_getIssues linear dateOf clock lnet ids) = Inr []
        \<and> (\<forall>i \<in> set ids. \<exists>m. LogError (''Failed to get issue '' @ i) (Some m)
              \<in> set (fst (LinearService_getIssues linear dateOf clock lnet ids))))"
proof (intro conjI impI)
  show "JiraService_getIssues jira jnet [] = ([], Inr [])"
    by (simp add: JiraService_getIssues_def ret_def)
  show "LinearService_getIssues linear dateOf clock lnet [] = ([], Inr [])"
    by (simp add: LinearService_getIssues_def ret_def)
  show "\<exists>found. snd (JiraService_getIssues jira jnet ids) = Inr found"
    by (rule jira_getIssues_returns)
  show "\<exists>found. snd (LinearService_getIssues linear dateOf clock lnet ids) = Inr found"
    by (rule linear_getIssues_returns)
next
  assume a: "ids \<noteq> [] \<and> jnet (jiraSearchRequest ids) = Inl err"
  then show "snd (JiraService_getIssues jira jnet ids) = Inr []"
    by (simp add: JiraService_getIssues_def JiraService_getJiraIssues_def jiraClientPost_def
        io_split)
  from a show "LogError ''Failed to get issues'' (Some (''Jira API error: '' @ axiosMessage err))
            \<in> set (fst (JiraService_getIssues jira jnet ids))"
    by (simp add: JiraService_getIssues_def JiraService_getJiraIssues_def jiraClientPost_def
        io_split)
next
  assume a: "ids \<noteq> [] \<and> (\<forall>i \<in> set ids. \<exists>e. lnet i = Inl e)"
  then have f: "snd (fetchEach linear dateOf clock lnet ids []) = Inr []"
    and g: "\<forall>i \<in> set ids. \<exists>m. LogError (''Failed to get issue '' @ i) (Some m)
          \<in> set (fst (fetchEach linear dateOf clock lnet ids []))"
    using fetchEach_all_fail [of ids lnet linear dateOf clock "[]"] by auto
  show "snd (LinearService_getIssues linear dateOf clock lnet ids) = Inr []"
    using a by (simp add: LinearService_getIssues_def f io_split)
  show "\<forall>i \<in> set ids. \<exists>m. LogError (''Failed to get issue '' @ i) (Some m)
              \<in> set (fst (LinearService_getIssues linear dateOf clock lnet ids))"
    using a g by (simp add: LinearService_getIssues_def f io_split)
qed

theorem getIssues_empty_and_failure_witness:
  "[''AB-1'', ''AB-2''] \<noteq> []
   \<and> failingJira (jiraSearchRequest [''AB-1'', ''AB-2'']) =
       Inl \<lparr>axiosMessage = ''Request failed with status code 500'',
            responseStatus = Some 500, responseData = None\<rparr>
   \<and> JiraService_getIssues sampleJiraService failingJira [''AB-1'', ''AB-2''] =
       ([LogGroup ''Fetching 2 issues from Jira'',
         LogDebug ''Making request to /rest/api/3/search'',
         LogError ''Jira API error: Request failed with status code 500''
           (Some ''Request failed with status code 500''),
         LogError ''Failed to get issues''
           (Some ''Jira API error: Request failed with status code 500''),
         LogEndGroup],
        Inr [])
   \<and> LinearService_getIssues sampleLinearService sampleDateOf (\<lambda>i. 0) failingLinear
         [''AB-1'', ''AB-2''] =
       ([LogGroup ''Fetching 2 issues from Linear'',
         LogError ''Linear API error: timeout of 30000ms exceeded''
           (Some ''timeout of 30000ms exceeded''),
         LogError ''Failed to get issue AB-1''
           (Some ''Linear API error: timeout of 30000ms exceeded''),
         LogError ''Linear API error: timeout of 30000ms exceeded''
           (Some ''timeout of 30000ms exceeded''),
         LogError ''Failed to get issue AB-2''
           (Some ''Linear API error: timeout of 30000ms exceeded''),
         LogInfo ''Found 0 issues'',
         LogEndGroup],
        Inr [])"
  using getIssues_empty_and_failure
    [of sampleJiraService failingJira sampleLinearService sampleDateOf "\<lambda>i. 0" failingLinear
        "[''AB-1'', ''AB-2'']"
        "\<lparr>axiosMessage = ''Request failed with status code 500'',
          responseStatus = Some 500, responseData = None\<rparr>"]
  by (simp add: JiraService_getIssues_def JiraService_getJiraIssues_def jiraClientPost_def
      LinearService_getIssues_def getIssue_failure failingJira_def failingLinear_def
      showNat.simps prod_eq_iff io_split)

section \<open>C8: status filter\<close>

text \<open>
  C8. In both adapters \<open>filterByStatus\<close> returns its input when the allow-list is absent or
  empty; otherwise it returns, in their order, exactly the issues whose status is equal
  (as a string, so case-sensitively) to a member of the allow-list.
\<close>

theorem filterByStatus_spec:
  "filterByStatus svc issues None = issues
   \<and> filterByStatus svc issues (Some []) = issues
   \<and> (allowed \<noteq> [] \<longrightarrow>
        filterByStatus svc issues (Some allowed) =
          filter (\<lambda>issue. \<exists>a \<in> set allowed. status issue = a) issues)
   \<and> JiraService_filterByStatus issues allowedStatuses =
       LinearService_filterByStatus issues allowedStatuses"
  by (cases svc)
     (auto simp: JiraService_filterByStatus_def LinearService_filterByStatus_def
        arrayIncludes_iff intro: filter_cong)

theorem filterByStatus_spec_witness:
  "[''Done''] \<noteq> []
   \<and> filterByStatus (Linear sampleLinearService)
        [issueInActiveSprint, issueInActiveSprint\<lparr>status := ''Done''\<rparr>,
         issueInActiveSprint\<lparr>status := ''done''\<rparr>] (Some [''Done''])
      = [issueInActiveSprint\<lparr>status := ''Done''\<rparr>]"
  using filterByStatus_spec
    [of "Linear sampleLinearService"
        "[issueInActiveSprint, issueInActiveSprint\<lparr>status := ''Done''\<rparr>,
          issueInActiveSprint\<lparr>status := ''done''\<rparr>]"
        "[''Done'']"]
  by (simp add: issueInActiveSprint_def)

section \<open>C9: one iteration shape per adapter\<close>

text \<open>
  C9 (as stated). Every converted issue has exactly one of \<open>sprint\<close> and \<open>cycle\<close>
  populated. This does not hold: a Jira issue that is in no sprint is converted to an issue
  with neither.
\<close>

theorem convertToGenericIssue_neither_counterexample:
  "sprint (JiraService_convertToGenericIssue sampleJiraService jiraIssueWithoutSprint) = None
   \<and> cycle (JiraService_convertToGenericIssue sampleJiraService jiraIssueWithoutSprint) = None"
  by (simp add: JiraService_convertToGenericIssue_def jiraIssueWithoutSprint_def)

text \<open>
  C9 (amended). A converted issue never has both fields populated: the Jira conversion
  always leaves \<open>cycle\<close> empty and the Linear conversion always leaves \<open>sprint\<close> empty.
  The adapter's own field is populated exactly when the backend issue carries a sprint
  (a cycle), so at most one of the two is populated.
\<close>

theorem convertToGenericIssue_at_most_one_iteration:
  "cycle (JiraService_convertToGenericIssue this jiraIssue) = None
   \<and> sprint (LinearService_convertToGenericIssue dateOf now linearIssue) = None
   \<and> ((sprint (JiraService_convertToGenericIssue this jiraIssue) = None)
        = (fieldSprint (issueFields jiraIssue) = None))
   \<and> ((cycle (LinearService_convertToGenericIssue dateOf now linearIssue) = None)
        = (linearCycle linearIssue = None))"
  by (simp add: JiraService_convertToGenericIssue_def LinearService_convertToGenericIssue_def
      split: option.split)

theorem convertToGenericIssue_at_most_one_iteration_witness:
  "cycle (JiraService_convertToGenericIssue sampleJiraService
      (jiraIssueWithoutSprint\<lparr>issueFields := (issueFields jiraIssueWithoutSprint)
         \<lparr>fieldSprint := Some \<lparr>jiraSprintId = 7, jiraSprintName = ''Sprint 7'',
            jiraSprintState = Active, startDate = None, endDate = None, goal = None\<rparr>\<rparr>\<rparr>))
     = None
   \<and> sprint (JiraService_convertToGenericIssue sampleJiraService
      (jiraIssueWithoutSprint\<lparr>issueFields := (issueFields jiraIssueWithoutSprint)
         \<lparr>fieldSprint := Some \<lparr>jiraSprintId = 7, jiraSprintName = ''Sprint 7'',
            jiraSprintState = Active, startDate = None, endDate = None, goal = None\<rparr>\<rparr>\<rparr>))
     = Some \<lparr>sprintName = ''Sprint 7'', sprintState = Active\<rparr>"
  using convertToGenericIssue_at_most_one_iteration
    [of sampleJiraService
      "jiraIssueWithoutSprint\<lparr>issueFields := (issueFields jiraIssueWithoutSprint)
         \<lparr>fieldSprint := Some \<lparr>jiraSprintId = 7, jiraSprintName = ''Sprint 7'',
            jiraSprintState = Active, startDate = None, endDate = None, goal = None\<rparr>\<rparr>\<rparr>"]
  by (simp add: JiraService_convertToGenericIssue_def jiraIssueWithoutSprint_def)

section \<open>C10: the tracker heuristic\<close>

text \<open>
  C10. \<open>detectIssueTracker\<close> never answers \<open>GuessLinear\<close>. Its validity test is the
  identifier format. An input that is not of the format yields \<open>GuessUnknown\<close>; an
  identifier whose letter prefix has at most four letters yields \<open>GuessUnknown\<close>; every
  other identifier yields \<open>GuessJira\<close>.
\<close>

theorem detectIssueTracker_spec:
  "detectIssueTracker s \<noteq> GuessLinear
   \<and> (isValidTicketId s \<longleftrightarrow> specTicketId s)
   \<and> (\<not> specTicketId s \<longrightarrow> detectIssueTracker s = GuessUnknown)
   \<and> (s = ls @ ''-'' @ ds \<and> 2 \<le> length ls \<and> length ls \<le> 10 \<and> (\<forall>c \<in> set ls. isUpperAZ c)
        \<and> ds \<noteq> [] \<and> (\<forall>c \<in> set ds. isDigit c) \<longrightarrow>
        detectIssueTracker s = (if length ls \<le> 4 then GuessUnknown else GuessJira))"
proof (intro conjI impI)
  show "detectIssueTracker s \<noteq> GuessLinear"
    by (simp add: detectIssueTracker_def Let_def)
  show "isValidTicketId s \<longleftrightarrow> specTicketId s"
    by (rule isValidTicketId_iff)
  show "detectIssueTracker s = GuessUnknown" if "\<not> specTicketId s"
    using that by (simp add: detectIssueTracker_def isValidTicketId_iff)
next
  assume a: "s = ls @ ''-'' @ ds \<and> 2 \<le> length ls \<and> length ls \<le> 10
      \<and> (\<forall>c \<in> set ls. isUpperAZ c) \<and> ds \<noteq> [] \<and> (\<forall>c \<in> set ds. isDigit c)"
  then have v: "isValidTicketId s"
    unfolding isValidTicketId_iff specTicketId_iff by auto
  have "\<forall>c \<in> set ls. c \<noteq> CHR ''-''"
    using a hyphen_class(1) by blast
  then have "takeWhile (\<lambda>x. x \<noteq> CHR ''-'') (ls @ CHR ''-'' # ds) = ls"
    using run_unique(1) [of ls "\<lambda>x. x \<noteq> CHR ''-''" "CHR ''-'' # ds"] by simp
  then have "hd (splitOn (CHR ''-'') s) = ls"
    using a by (simp add: hd_splitOn)
  then show "detectIssueTracker s = (if length ls \<le> 4 then GuessUnknown else GuessJira)"
    using v by (simp add: detectIssueTracker_def)
qed

theorem detectIssueTracker_spec_witness:
  "\<not> specTicketId ''proj-12''
   \<and> detectIssueTracker ''proj-12'' = GuessUnknown
   \<and> detectIssueTracker ''PROJ-12'' = GuessUnknown
   \<and> detectIssueTracker ''PROJECT-12'' = GuessJira"
proof -
  have u: "\<forall>c \<in> set ''PROJECT''. isUpperAZ c" and d: "\<forall>c \<in> set ''12''. isDigit c"
    by (simp_all add: isUpperAZ_def isDigit_def)
  have n: "\<not> specTicketId ''proj-12''"
    by (simp add: specTicketId_def isUpperAZ_def)
  show ?thesis
    using detectIssueTracker_spec [of "''proj-12''"]
      detectIssueTracker_spec [of "''PROJ-12''" "''PROJ''" "''12''"]
      detectIssueTracker_spec [of "''PROJECT-12''" "''PROJECT''" "''12''"]
      u d n
    by simp
qed

end
